theory Spec2Isabelle
  imports Main
begin

section \<open>The Cordle game engine (CordleGame.ts)\<close>

text \<open>
  A shallow embedding of the class \<open>CordleGame\<close>. The instance is one record: the
  fields of \<open>this.state\<close> together with the two private fields \<open>_preferredPlayer1\<close>
  and \<open>_preferredPlayer2\<close>. Every method takes the instance and returns the instance
  it leaves behind. A method that throws returns \<open>Inl (e, g')\<close>, where \<open>g'\<close> is the
  instance at the moment of the throw (JavaScript does not roll assignments back).
  The methods \<open>_join\<close> and \<open>_leave\<close> are called \<open>join\<close> and \<open>leave\<close> here. The list
  of players and the id kept by the base class \<open>Game\<close> are read by none of the methods
  below and are left out.
\<close>

subsection \<open>Data\<close>

type_synonym PlayerID = string

datatype GameStatus = WAITING_FOR_PLAYERS | WAITING_TO_START | IN_PROGRESS | OVER

datatype CordlePlayerNumber = Player1 | Player2

datatype CordleDifficulty = Easy | Medium | Hard

datatype CordleCell = Green | Yellow | Gray

text \<open>The three word files \<open>startGame\<close> chooses between.\<close>

datatype WordFile = EasyWords | MediumWords | HardWords

text \<open>
  The messages thrown by the class. \<open>UNEXPECTED_GAME_STATUS\<close> is the \<open>default\<close>
  branch of the \<open>switch\<close> in \<open>_leave\<close>.
\<close>

datatype GameError =
    PLAYER_ALREADY_IN_GAME
  | GAME_FULL
  | PLAYER_NOT_IN_GAME
  | GAME_NOT_STARTABLE
  | GAME_NOT_IN_PROGRESS
  | MOVE_NOT_YOUR_TURN
  | UNEXPECTED_GAME_STATUS

text \<open>
  \<open>guessNumber\<close> is declared as the literal type 1..6; the engine never checks it, so
  the model keeps it a natural number.
\<close>

record CordleGuess =
  player :: PlayerID
  guessedWord :: string
  guessNumber :: nat

text \<open>
  \<open>guessesEvaluated\<close> is a JavaScript array written by index, so it can have holes:
  an element is \<open>None\<close> for a hole and \<open>Some row\<close> for a stored row. The optional
  ready flags are only ever tested for truthiness; \<open>undefined\<close> and \<open>false\<close> are both
  \<open>False\<close> here. The winner is a player id or the string \<open>DRAW\<close>.
\<close>

record CordleGame =
  guesses :: "CordleGuess list"
  status :: GameStatus
  firstPlayer :: CordlePlayerNumber
  cordle :: "string option"
  guessesEvaluated :: "CordleCell list option list"
  difficulty :: "CordleDifficulty option"
  player1 :: "PlayerID option"
  player2 :: "PlayerID option"
  player1Ready :: bool
  player2Ready :: bool
  winner :: "PlayerID option"
  preferredPlayer1 :: "PlayerID option"
  preferredPlayer2 :: "PlayerID option"

type_synonym outcome = "(GameError \<times> CordleGame) + CordleGame"

definition DRAW :: PlayerID where
  "DRAW = ''DRAW''"

text \<open>
  JavaScript truthiness of an optional string, as tested by \<open>!this.state.player1\<close>,
  \<open>this.state.player1 && this.state.player2\<close> and \<open>!this.state.winner\<close>: \<open>undefined\<close>
  and the empty string are falsy.
\<close>

definition truthy :: "string option \<Rightarrow> bool" where
  "truthy x = (case x of None \<Rightarrow> False | Some s \<Rightarrow> s \<noteq> [])"

subsection \<open>Scoring a guess (the two loops of \<open>_applyGuess\<close>)\<close>

text \<open>
  \<open>cordleCopy\<close> is the array of the secret's letters; an erased letter (the empty
  string in the source) is \<open>None\<close>. A read beyond the end of the array gives
  \<open>undefined\<close>, which equals no letter.
\<close>

text \<open>\<open>Array.prototype.indexOf\<close>: the first index holding the value, \<open>None\<close> for -1.\<close>

fun indexOf :: "'a list \<Rightarrow> 'a \<Rightarrow> nat option" where
  "indexOf [] x = None"
| "indexOf (y # ys) x = (if y = x then Some 0 else map_option Suc (indexOf ys x))"

text \<open>
  The first loop. At iteration \<open>i\<close> the array \<open>guessColors\<close> has exactly \<open>i\<close>
  elements, so the write \<open>guessColors[i] = c\<close> appends.
\<close>

function greenLoop ::
  "string \<Rightarrow> nat \<Rightarrow> CordleCell list \<Rightarrow> char option list \<Rightarrow> CordleCell list \<times> char option list"
where
  "greenLoop w i guessColors cordleCopy =
     (if i < length w then
        (if i < length cordleCopy \<and> cordleCopy ! i = Some (w ! i)
         then greenLoop w (i + 1) (guessColors @ [Green]) (cordleCopy[i := None])
         else greenLoop w (i + 1) (guessColors @ [Gray]) cordleCopy)
      else (guessColors, cordleCopy))"
  by pat_completeness auto
termination
  by (relation "measure (\<lambda>(w, i, guessColors, cordleCopy). length w - i)") auto

text \<open>The second loop, over the cells the first loop left gray.\<close>

function yellowLoop ::
  "string \<Rightarrow> nat \<Rightarrow> CordleCell list \<Rightarrow> char option list \<Rightarrow> CordleCell list"
where
  "yellowLoop w i guessColors cordleCopy =
     (if i < length w then
        (if i < length guessColors \<and> guessColors ! i = Gray then
           (case indexOf cordleCopy (Some (w ! i)) of
              Some indexInCordle \<Rightarrow>
                yellowLoop w (i + 1) (guessColors[i := Yellow]) (cordleCopy[indexInCordle := None])
            | None \<Rightarrow> yellowLoop w (i + 1) guessColors cordleCopy)
         else yellowLoop w (i + 1) guessColors cordleCopy)
      else guessColors)"
  by pat_completeness auto
termination
  by (relation "measure (\<lambda>(w, i, guessColors, cordleCopy). length w - i)") auto

text \<open>The row \<open>_applyGuess\<close> computes for the secret \<open>secret\<close> and the guessed word \<open>w\<close>.\<close>

definition evaluateGuess :: "string \<Rightarrow> string \<Rightarrow> CordleCell list" where
  "evaluateGuess secret w =
     (case greenLoop w 0 [] (map Some secret) of
        (guessColors, cordleCopy) \<Rightarrow> yellowLoop w 0 guessColors cordleCopy)"

subsection \<open>The scoring algorithm as the specification words it\<close>

text \<open>
  First pass: position \<open>i\<close> is green when the guess and the copy agree there, and the
  letter is erased from the copy.
\<close>

definition spec_greenRow :: "string \<Rightarrow> string \<Rightarrow> CordleCell list" where
  "spec_greenRow S G = map (\<lambda>i. if G ! i = S ! i then Green else Gray) [0..<length G]"

definition spec_greenCopy :: "string \<Rightarrow> string \<Rightarrow> char option list" where
  "spec_greenCopy S G = map (\<lambda>i. if G ! i = S ! i then None else Some (S ! i)) [0..<length G]"

text \<open>Erasing the leftmost remaining occurrence of a letter.\<close>

fun spec_eraseLeftmost :: "char \<Rightarrow> char option list \<Rightarrow> char option list" where
  "spec_eraseLeftmost c [] = []"
| "spec_eraseLeftmost c (x # xs) = (if x = Some c then None # xs else x # spec_eraseLeftmost c xs)"

text \<open>
  Second pass, one position: a gray cell whose letter still occurs in the copy turns
  yellow and uses up the leftmost occurrence.
\<close>

definition spec_yellowStep ::
  "string \<Rightarrow> nat \<Rightarrow> CordleCell list \<times> char option list \<Rightarrow> CordleCell list \<times> char option list"
where
  "spec_yellowStep G i rc =
     (case rc of (row, C) \<Rightarrow>
        if row ! i = Gray \<and> Some (G ! i) \<in> set C
        then (row[i := Yellow], spec_eraseLeftmost (G ! i) C)
        else (row, C))"

definition spec_score :: "string \<Rightarrow> string \<Rightarrow> CordleCell list" where
  "spec_score S G =
     fst (fold (spec_yellowStep G) [0..<length G] (spec_greenRow S G, spec_greenCopy S G))"

text \<open>
  The number of green or yellow cells of a row that sit under the letter \<open>c\<close> of the
  guess.
\<close>

definition hits :: "char \<Rightarrow> string \<Rightarrow> CordleCell list \<Rightarrow> nat" where
  "hits c G row = length (filter (\<lambda>(g, col). g = c \<and> col \<noteq> Gray) (zip G row))"


subsection \<open>Construction\<close>

fun getOtherPlayerNumber :: "CordlePlayerNumber \<Rightarrow> CordlePlayerNumber" where
  "getOtherPlayerNumber Player2 = Player1"
| "getOtherPlayerNumber Player1 = Player2"

text \<open>
  The constructor. The fields the initial state object does not mention are
  \<open>undefined\<close>.
\<close>

definition newGame :: "CordleGame option \<Rightarrow> CordleGame" where
  "newGame priorGame =
     \<lparr> guesses = [],
       status = WAITING_FOR_PLAYERS,
       firstPlayer =
         getOtherPlayerNumber (case priorGame of None \<Rightarrow> Player2 | Some pg \<Rightarrow> firstPlayer pg),
       cordle = None,
       guessesEvaluated = [],
       difficulty = None,
       player1 = None,
       player2 = None,
       player1Ready = False,
       player2Ready = False,
       winner = None,
       preferredPlayer1 = (case priorGame of None \<Rightarrow> None | Some pg \<Rightarrow> player1 pg),
       preferredPlayer2 = (case priorGame of None \<Rightarrow> None | Some pg \<Rightarrow> player2 pg) \<rparr>"

subsection \<open>\<open>_join\<close>\<close>

text \<open>The closing statement of \<open>_join\<close>: both slots filled means waiting to start.\<close>

definition bothJoined :: "CordleGame \<Rightarrow> CordleGame" where
  "bothJoined g =
     (if truthy (player1 g) \<and> truthy (player2 g) then g\<lparr>status := WAITING_TO_START\<rparr> else g)"

definition join :: "CordleGame \<Rightarrow> PlayerID \<Rightarrow> outcome" where
  "join g p =
     (if player1 g = Some p \<or> player2 g = Some p then Inl (PLAYER_ALREADY_IN_GAME, g)
      else if preferredPlayer1 g = Some p \<and> \<not> truthy (player1 g)
        then Inr (bothJoined (g\<lparr>status := WAITING_FOR_PLAYERS, player1 := Some p\<rparr>))
      else if preferredPlayer2 g = Some p \<and> \<not> truthy (player2 g)
        then Inr (bothJoined (g\<lparr>status := WAITING_FOR_PLAYERS, player2 := Some p\<rparr>))
      else if \<not> truthy (player1 g)
        then Inr (bothJoined (g\<lparr>status := WAITING_FOR_PLAYERS, player1 := Some p\<rparr>))
      else if \<not> truthy (player2 g)
        then Inr (bothJoined (g\<lparr>status := WAITING_FOR_PLAYERS, player2 := Some p\<rparr>))
      else Inl (GAME_FULL, g))"

subsection \<open>\<open>startGame\<close> and \<open>setDifficultyLevel\<close>\<close>

text \<open>
  \<open>String.prototype.toUpperCase\<close> on the letters a to z; the word lists hold plain
  ASCII words, and every other character is left as it is.
\<close>

definition toUpperChar :: "char \<Rightarrow> char" where
  "toUpperChar c =
     (case map_of (zip ''abcdefghijklmnopqrstuvwxyz'' ''ABCDEFGHIJKLMNOPQRSTUVWXYZ'') c of
        Some u \<Rightarrow> u
      | None \<Rightarrow> c)"

definition toUpperCase :: "string \<Rightarrow> string" where
  "toUpperCase w = map toUpperChar w"

text \<open>
  The word files and the random choice are not part of the engine: the parameter
  \<open>selectRandomWord\<close> gives, for each file, the word that \<open>_selectRandomWord\<close>
  returns in this call. With no difficulty set nothing is read and the word is the
  empty string.
\<close>

definition selectedCordle :: "(WordFile \<Rightarrow> string) \<Rightarrow> CordleDifficulty option \<Rightarrow> string" where
  "selectedCordle selectRandomWord d =
     (case d of
        Some Easy \<Rightarrow> selectRandomWord EasyWords
      | Some Medium \<Rightarrow> selectRandomWord MediumWords
      | Some Hard \<Rightarrow> selectRandomWord HardWords
      | None \<Rightarrow> [])"

definition startGame :: "(WordFile \<Rightarrow> string) \<Rightarrow> CordleGame \<Rightarrow> PlayerID \<Rightarrow> outcome" where
  "startGame selectRandomWord g p =
     (if status g \<noteq> WAITING_TO_START then Inl (GAME_NOT_STARTABLE, g)
      else if player1 g \<noteq> Some p \<and> player2 g \<noteq> Some p then Inl (PLAYER_NOT_IN_GAME, g)
      else
        let g1 = (if player1 g = Some p then g\<lparr>player1Ready := True\<rparr> else g);
            g2 = (if player2 g1 = Some p then g1\<lparr>player2Ready := True\<rparr> else g1);
            g3 = (if \<not> (preferredPlayer1 g2 = player1 g2 \<or> preferredPlayer2 g2 = player2 g2)
                  then g2\<lparr>firstPlayer := Player1\<rparr> else g2)
        in
          if truthy (player1 g3) \<and> truthy (player2 g3) then
            let g4 = (if (firstPlayer g3 = Player1 \<and> Some p = player1 g3)
                         \<or> (firstPlayer g3 = Player2 \<and> Some p = player2 g3)
                      then g3\<lparr>cordle :=
                             Some (toUpperCase (selectedCordle selectRandomWord (difficulty g3)))\<rparr>
                      else g3)
            in Inr (g4\<lparr>status :=
                       (if player1Ready g4 \<and> player2Ready g4 then IN_PROGRESS
                        else WAITING_TO_START)\<rparr>)
          else Inr g3)"

definition setDifficultyLevel :: "CordleGame \<Rightarrow> CordleDifficulty \<Rightarrow> CordleGame" where
  "setDifficultyLevel g d = g\<lparr>difficulty := Some d\<rparr>"

subsection \<open>\<open>_leave\<close>\<close>

text \<open>The local function \<open>removePlayer\<close>: the slot that was vacated, or the throw.\<close>

definition removePlayer ::
  "CordleGame \<Rightarrow> PlayerID \<Rightarrow> (GameError \<times> CordleGame) + (CordlePlayerNumber \<times> CordleGame)"
where
  "removePlayer g playerID =
     (if player1 g = Some playerID
        then Inr (Player1, g\<lparr>player1 := None, player1Ready := False\<rparr>)
      else if player2 g = Some playerID
        then Inr (Player2, g\<lparr>player2 := None, player2Ready := False\<rparr>)
      else Inl (PLAYER_NOT_IN_GAME, g))"

definition leave :: "CordleGame \<Rightarrow> PlayerID \<Rightarrow> outcome" where
  "leave g p =
     (if status g = OVER then Inr g
      else
        case removePlayer g p of
          Inl e \<Rightarrow> Inl e
        | Inr (playerLeft, g1) \<Rightarrow>
            (case status g1 of
               WAITING_TO_START \<Rightarrow> Inr (g1\<lparr>status := WAITING_FOR_PLAYERS\<rparr>)
             | WAITING_FOR_PLAYERS \<Rightarrow> Inr (g1\<lparr>status := WAITING_FOR_PLAYERS\<rparr>)
             | IN_PROGRESS \<Rightarrow>
                 Inr (g1\<lparr>status := OVER,
                          winner := (if playerLeft = Player1 then player2 g1 else player1 g1)\<rparr>)
             | OVER \<Rightarrow> Inl (UNEXPECTED_GAME_STATUS, g1)))"

subsection \<open>\<open>whoseTurn\<close>, \<open>applyMove\<close> and \<open>_applyGuess\<close>\<close>

definition whoseTurn :: "CordleGame \<Rightarrow> CordlePlayerNumber" where
  "whoseTurn g =
     (if firstPlayer g = Player1
      then (if length (guesses g) mod 2 = 0 then Player1 else Player2)
      else (if length (guesses g) mod 2 = 0 then Player2 else Player1))"

text \<open>
  The write \<open>arr[i] = v\<close> on a JavaScript array: inside the array it replaces the
  element, at or beyond the end it extends the array and leaves holes in between.
\<close>

definition arrayStore :: "'a option list \<Rightarrow> nat \<Rightarrow> 'a \<Rightarrow> 'a option list" where
  "arrayStore xs i v =
     (if i < length xs then xs[i := Some v]
      else xs @ replicate (i - length xs) None @ [Some v])"

text \<open>
  The write \<open>guessesEvaluated[guessNumber - 1] = guessColors\<close>. For \<open>guessNumber = 0\<close>
  the key is -1, which is no array index: the array keeps its elements.
\<close>

definition storeRow ::
  "CordleCell list option list \<Rightarrow> nat \<Rightarrow> CordleCell list \<Rightarrow> CordleCell list option list"
where
  "storeRow rows n guessColors = (if n = 0 then rows else arrayStore rows (n - 1) guessColors)"

definition applyGuess :: "CordleGame \<Rightarrow> CordleGuess \<Rightarrow> CordleGame" where
  "applyGuess g guess =
     (let g1 = g\<lparr>guesses := guesses g @ [guess]\<rparr>;
          guessColors =
            evaluateGuess (case cordle g1 of None \<Rightarrow> [] | Some w \<Rightarrow> w) (guessedWord guess);
          g2 = g1\<lparr>guessesEvaluated := storeRow (guessesEvaluated g1) (guessNumber guess) guessColors\<rparr>;
          g3 = (if list_all (\<lambda>color. color = Green) guessColors
                then g2\<lparr>status := OVER, winner := Some (player guess)\<rparr> else g2)
      in if 6 \<le> length (guesses g3) \<and> \<not> truthy (winner g3)
         then g3\<lparr>status := OVER, winner := Some DRAW\<rparr> else g3)"

text \<open>
  \<open>applyMove\<close> reads only the field \<open>move\<close> of its argument, so the model takes the
  guess itself.
\<close>

definition applyMove :: "CordleGame \<Rightarrow> CordleGuess \<Rightarrow> outcome" where
  "applyMove g guess =
     (if status g \<noteq> IN_PROGRESS then Inl (GAME_NOT_IN_PROGRESS, g)
      else
        let pl1 = (if whoseTurn g = Player1 then player1 g else None);
            pl = (if whoseTurn g = Player2 then player2 g else pl1)
        in if Some (player guess) \<noteq> pl then Inl (MOVE_NOT_YOUR_TURN, g)
           else Inr (applyGuess g guess))"

subsection \<open>Sequences of calls\<close>

datatype Command =
    Join PlayerID
  | Leave PlayerID
  | StartGame "WordFile \<Rightarrow> string" PlayerID
  | SetDifficultyLevel CordleDifficulty
  | ApplyMove CordleGuess

fun exec :: "Command \<Rightarrow> CordleGame \<Rightarrow> outcome" where
  "exec (Join p) g = join g p"
| "exec (Leave p) g = leave g p"
| "exec (StartGame selectRandomWord p) g = startGame selectRandomWord g p"
| "exec (SetDifficultyLevel d) g = Inr (setDifficultyLevel g d)"
| "exec (ApplyMove guess) g = applyMove g guess"

text \<open>The instance a call leaves behind, whether it returned or threw.\<close>

definition post :: "outcome \<Rightarrow> CordleGame" where
  "post r = (case r of Inl (e, g) \<Rightarrow> g | Inr g \<Rightarrow> g)"

text \<open>Running calls one after the other, up to the first one that throws.\<close>

fun run :: "Command list \<Rightarrow> CordleGame \<Rightarrow> outcome" where
  "run [] g = Inr g"
| "run (c # cs) g = (case exec c g of Inl e \<Rightarrow> Inl e | Inr g' \<Rightarrow> run cs g')"

text \<open>
  The instances that calls can produce from a fresh one, when every call made
  satisfies \<open>allowed\<close> in the instance it is made on.
\<close>

inductive reachableVia :: "(CordleGame \<Rightarrow> Command \<Rightarrow> bool) \<Rightarrow> CordleGame \<Rightarrow> bool"
  for allowed :: "CordleGame \<Rightarrow> Command \<Rightarrow> bool"
where
  fresh: "reachableVia allowed (newGame priorGame)"
| call: "reachableVia allowed g \<Longrightarrow> allowed g c \<Longrightarrow> reachableVia allowed (post (exec c g))"

definition anyCall :: "CordleGame \<Rightarrow> Command \<Rightarrow> bool" where
  "anyCall g c = True"


text \<open>
  Whether the calls \<open>cs\<close>, made one after the other from \<open>g\<close>, all return and are
  all allowed.
\<close>

fun runAllowed :: "(CordleGame \<Rightarrow> Command \<Rightarrow> bool) \<Rightarrow> Command list \<Rightarrow> CordleGame \<Rightarrow> bool" where
  "runAllowed allowed [] g = True"
| "runAllowed allowed (c # cs) g =
     (allowed g c \<and> (case exec c g of Inl e \<Rightarrow> False | Inr g' \<Rightarrow> runAllowed allowed cs g'))"

text \<open>
  The discipline of a caller that treats a finished instance as finished: \<open>join\<close> is
  not called on an instance whose status is \<open>OVER\<close>.
\<close>

fun noJoinWhenOver :: "CordleGame \<Rightarrow> Command \<Rightarrow> bool" where
  "noJoinWhenOver g (Join p) = (status g \<noteq> OVER)"
| "noJoinWhenOver g c = True"

text \<open>
  The discipline of a caller that numbers its guesses as the frontend does
  (\<open>guessCount + 1\<close>).
\<close>

fun guessNumberInSequence :: "CordleGame \<Rightarrow> Command \<Rightarrow> bool" where
  "guessNumberInSequence g (ApplyMove guess) = (guessNumber guess = length (guesses g) + 1)"
| "guessNumberInSequence g c = True"

text \<open>\<open>rows[i]\<close> is defined: inside the array and not a hole.\<close>

definition rowDefined :: "CordleCell list option list \<Rightarrow> nat \<Rightarrow> bool" where
  "rowDefined rows i = (i < length rows \<and> rows ! i \<noteq> None)"

text \<open>
  The condition of the specification for a fresh pairing, read as it is worded: neither
  current slot occupant matches either preferred id.
\<close>

definition spec_freshPairing :: "CordleGame \<Rightarrow> bool" where
  "spec_freshPairing g =
     (player1 g \<noteq> preferredPlayer1 g \<and> player1 g \<noteq> preferredPlayer2 g
      \<and> player2 g \<noteq> preferredPlayer1 g \<and> player2 g \<noteq> preferredPlayer2 g)"

subsection \<open>The frontend check before a guess is sent (\<open>makeMove\<close> of the area controller)\<close>

datatype ControllerError = NO_GAME_IN_PROGRESS_ERROR | WORD_WRONG_LENGTH | WORD_NOT_EXISTS

text \<open>
  \<open>makeMove\<close> either throws or sends a \<open>GameMove\<close> command carrying a guess; the model
  returns the guess sent. Its surroundings are parameters: whether an instance id is
  known, the status of the game in the controller's model (if any), the answer of the
  dictionary lookup, the id of the local player and the number of guesses so far.
\<close>

definition makeMove ::
  "bool \<Rightarrow> GameStatus option \<Rightarrow> (string \<Rightarrow> bool) \<Rightarrow> PlayerID \<Rightarrow> nat \<Rightarrow> string
     \<Rightarrow> ControllerError + CordleGuess"
where
  "makeMove instanceID gameStatus isRealWord playerID guessCount guess =
     (if \<not> instanceID \<or> gameStatus \<noteq> Some IN_PROGRESS then Inl NO_GAME_IN_PROGRESS_ERROR
      else if length guess \<noteq> 5 then Inl WORD_WRONG_LENGTH
      else if \<not> isRealWord guess then Inl WORD_NOT_EXISTS
      else Inr \<lparr>player = playerID, guessedWord = guess, guessNumber = guessCount + 1\<rparr>)"

subsection \<open>Concrete games\<close>

text \<open>Word providers that return the same word for every file.\<close>

definition drawApple :: "WordFile \<Rightarrow> string" where
  "drawApple f = ''apple''"

definition drawGrape :: "WordFile \<Rightarrow> string" where
  "drawGrape f = ''grape''"

definition wrongGuess :: "PlayerID \<Rightarrow> nat \<Rightarrow> CordleGuess" where
  "wrongGuess p n = \<lparr>player = p, guessedWord = ''wrong'', guessNumber = n\<rparr>"

text \<open>Two players have joined a first game and both have started it.\<close>

definition playingGame :: CordleGame where
  "playingGame =
     post (run [Join ''A'', Join ''B'', StartGame drawApple ''A'', StartGame drawApple ''B'']
             (newGame None))"

text \<open>
  Two players have joined, the difficulty is set, and the player of slot 1, who moves
  first, has started once.
\<close>

definition oneReadyGame :: CordleGame where
  "oneReadyGame =
     post (run [Join ''A'', Join ''B'', SetDifficultyLevel Easy, StartGame drawApple ''A'']
             (newGame None))"

text \<open>A game that ended because the player of slot 1 left while it was in progress.\<close>

definition abandonedGame :: CordleGame where
  "abandonedGame = post (leave playingGame ''A'')"

text \<open>
  A game that ended because the player of slot 2 left, and the game constructed after
  it, which a newcomer joins before the remaining player of the earlier game does.
\<close>

definition priorGame :: CordleGame where
  "priorGame = post (leave playingGame ''B'')"

definition crossSlotGame :: CordleGame where
  "crossSlotGame = post (run [Join ''X'', Join ''A''] (newGame (Some priorGame)))"

text \<open>
  Seven guesses on one instance: the game is abandoned by slot 1, a newcomer joins the
  finished instance and starts it, and the two players then guess in turn.
\<close>

definition sevenGuessCalls :: "Command list" where
  "sevenGuessCalls =
     [Join ''A'', Join ''B'', StartGame drawApple ''A'', StartGame drawApple ''B'', Leave ''A'',
      Join ''X'', StartGame drawApple ''X'',
      ApplyMove (wrongGuess ''X'' 1), ApplyMove (wrongGuess ''B'' 2),
      ApplyMove (wrongGuess ''X'' 3), ApplyMove (wrongGuess ''B'' 4),
      ApplyMove (wrongGuess ''X'' 5), ApplyMove (wrongGuess ''B'' 6),
      ApplyMove (wrongGuess ''X'' 7)]"

text \<open>Five wrong guesses in a game played from start.\<close>

definition fiveGuessCalls :: "Command list" where
  "fiveGuessCalls =
     [Join ''A'', Join ''B'', StartGame drawApple ''A'', StartGame drawApple ''B'',
      ApplyMove (wrongGuess ''A'' 1), ApplyMove (wrongGuess ''B'' 2),
      ApplyMove (wrongGuess ''A'' 3), ApplyMove (wrongGuess ''B'' 4),
      ApplyMove (wrongGuess ''A'' 5)]"

text \<open>A first guess that carries the number 2.\<close>

definition misnumberedCalls :: "Command list" where
  "misnumberedCalls =
     [Join ''A'', Join ''B'', StartGame drawApple ''A'', StartGame drawApple ''B'',
      ApplyMove (wrongGuess ''A'' 2)]"

definition fiveGuessGame :: CordleGame where
  "fiveGuessGame = post (run fiveGuessCalls (newGame None))"

definition sevenGuessGame :: CordleGame where
  "sevenGuessGame = post (run sevenGuessCalls (newGame None))"

definition misnumberedGame :: CordleGame where
  "misnumberedGame = post (run misnumberedCalls (newGame None))"

text \<open>A guess whose word is the empty string.\<close>

definition emptyGuess :: "PlayerID \<Rightarrow> nat \<Rightarrow> CordleGuess" where
  "emptyGuess p n = \<lparr>player = p, guessedWord = [], guessNumber = n\<rparr>"

text \<open>
  The game constructed after \<open>playingGame\<close>: two newcomers join and one of them starts,
  both leave, and the two players of the earlier game join in their old slots and start.
\<close>

definition reseatedCalls :: "Command list" where
  "reseatedCalls =
     [Join ''X'', Join ''Y'', StartGame drawApple ''X'', Leave ''X'', Leave ''Y'',
      Join ''A'', Join ''B'', StartGame drawApple ''A'', StartGame drawApple ''B'']"

definition reseatedGame :: CordleGame where
  "reseatedGame = post (run reseatedCalls (newGame (Some playingGame)))"

subsection \<open>Invariants\<close>

text \<open>A game in progress has both slots occupied.\<close>

definition slotsFilled :: "CordleGame \<Rightarrow> bool" where
  "slotsFilled g = (status g = IN_PROGRESS \<longrightarrow> truthy (player1 g) \<and> truthy (player2 g))"

text \<open>At most six guesses, and a game that is not over has no winner and room for a guess.\<close>

definition withinLimit :: "CordleGame \<Rightarrow> bool" where
  "withinLimit g =
     (length (guesses g) \<le> 6
      \<and> (status g \<noteq> OVER \<longrightarrow> winner g = None \<and> length (guesses g) < 6))"

text \<open>The array of rows is as long as the list of guesses and has no hole.\<close>

definition rowsInStep :: "CordleGame \<Rightarrow> bool" where
  "rowsInStep g =
     (length (guessesEvaluated g) = length (guesses g) \<and> None \<notin> set (guessesEvaluated g))"

section \<open>Scoring\<close>

text \<open>
  The loop equations are applied by hand in the proofs below; as rewrite rules they
  would unfold without end.
\<close>

declare greenLoop.simps [simp del] yellowLoop.simps [simp del]

lemma indexOf_None: "indexOf xs x = None \<longleftrightarrow> x \<notin> set xs"
  by (induction xs) auto

lemma indexOf_Some: "indexOf xs x = Some k \<Longrightarrow> k < length xs \<and> xs ! k = x"
  by (induction xs arbitrary: k) (auto split: if_splits)

lemma indexOf_erase: "indexOf C (Some c) = Some k \<Longrightarrow> C[k := None] = spec_eraseLeftmost c C"
  by (induction C arbitrary: k) (auto split: if_splits)

lemma greenLoop_spec:
  "i \<le> length G \<Longrightarrow> length C = length G \<Longrightarrow>
   greenLoop G i cols C =
     (cols @ map (\<lambda>k. if C ! k = Some (G ! k) then Green else Gray) [i..<length G],
      map (\<lambda>k. if i \<le> k \<and> C ! k = Some (G ! k) then None else C ! k) [0..<length G])"
proof (induction G i cols C rule: greenLoop.induct)
  case (1 w i guessColors cordleCopy)
  show ?case
  proof (cases "i < length w")
    case False
    with "1.prems" have "i = length w" by simp
    with "1.prems" show ?thesis
      by (subst greenLoop.simps) (auto intro!: nth_equalityI)
  next
    case True
    note lt = True
    show ?thesis
    proof (cases "cordleCopy ! i = Some (w ! i)")
      case True
      have "greenLoop w i guessColors cordleCopy =
            greenLoop w (i + 1) (guessColors @ [Green]) (cordleCopy[i := None])"
        using lt True "1.prems" by (subst greenLoop.simps) simp
      also have "\<dots> = ((guessColors @ [Green]) @
              map (\<lambda>k. if cordleCopy[i := None] ! k = Some (w ! k) then Green else Gray) [i + 1..<length w],
            map (\<lambda>k. if i + 1 \<le> k \<and> cordleCopy[i := None] ! k = Some (w ! k) then None
                      else cordleCopy[i := None] ! k) [0..<length w])"
        using "1.IH"(1) lt True "1.prems" by simp
      also have "\<dots> = (guessColors @ map (\<lambda>k. if cordleCopy ! k = Some (w ! k) then Green else Gray) [i..<length w],
            map (\<lambda>k. if i \<le> k \<and> cordleCopy ! k = Some (w ! k) then None else cordleCopy ! k) [0..<length w])"
        using lt True "1.prems" by (auto simp: upt_conv_Cons nth_list_update)
      finally show ?thesis .
    next
      case False
      have "greenLoop w i guessColors cordleCopy =
            greenLoop w (i + 1) (guessColors @ [Gray]) cordleCopy"
        using lt False "1.prems" by (subst greenLoop.simps) simp
      also have "\<dots> = ((guessColors @ [Gray]) @
              map (\<lambda>k. if cordleCopy ! k = Some (w ! k) then Green else Gray) [i + 1..<length w],
            map (\<lambda>k. if i + 1 \<le> k \<and> cordleCopy ! k = Some (w ! k) then None
                      else cordleCopy ! k) [0..<length w])"
        using "1.IH"(2) lt False "1.prems" by simp
      also have "\<dots> = (guessColors @ map (\<lambda>k. if cordleCopy ! k = Some (w ! k) then Green else Gray) [i..<length w],
            map (\<lambda>k. if i \<le> k \<and> cordleCopy ! k = Some (w ! k) then None else cordleCopy ! k) [0..<length w])"
        using lt False "1.prems" by (auto simp: upt_conv_Cons nth_list_update le_eq_less_or_eq)
      finally show ?thesis .
    qed
  qed
qed


lemma yellowLoop_length: "length (yellowLoop G i cols C) = length cols"
proof (induction G i cols C rule: yellowLoop.induct)
  case (1 w i guessColors cordleCopy)
  show ?case
    using "1.IH" by (subst yellowLoop.simps) (simp split: option.splits)
qed

lemma spec_yellowStep_pair:
  "spec_yellowStep G i (row, C) =
     (if row ! i = Gray \<and> Some (G ! i) \<in> set C
      then (row[i := Yellow], spec_eraseLeftmost (G ! i) C) else (row, C))"
  by (simp add: spec_yellowStep_def)

lemma yellowLoop_spec:
  "length cols = length G \<Longrightarrow>
   yellowLoop G i cols C = fst (fold (spec_yellowStep G) [i..<length G] (cols, C))"
proof (induction G i cols C rule: yellowLoop.induct)
  case (1 w i guessColors cordleCopy)
  show ?case
  proof (cases "i < length w")
    case False
    then show ?thesis by (subst yellowLoop.simps) simp
  next
    case True
    then have upt: "[i..<length w] = i # [i + 1..<length w]"
      by (simp add: upt_conv_Cons)
    show ?thesis
    proof (cases "guessColors ! i = Gray")
      case False
      then show ?thesis
        using True "1.IH"(3) "1.prems"
        by (subst yellowLoop.simps) (simp add: upt spec_yellowStep_pair)
    next
      case Gray: True
      show ?thesis
      proof (cases "indexOf cordleCopy (Some (w ! i))")
        case None
        then have "Some (w ! i) \<notin> set cordleCopy" by (simp add: indexOf_None)
        then show ?thesis
          using True Gray None "1.IH"(1) "1.prems"
          by (subst yellowLoop.simps) (simp add: upt spec_yellowStep_pair)
      next
        case (Some k)
        then have "Some (w ! i) \<in> set cordleCopy"
          using indexOf_None [of cordleCopy "Some (w ! i)"] by simp
        moreover have "cordleCopy[k := None] = spec_eraseLeftmost (w ! i) cordleCopy"
          using Some by (rule indexOf_erase)
        ultimately show ?thesis
          using True Gray Some "1.IH"(2) "1.prems"
          by (subst yellowLoop.simps) (simp add: upt spec_yellowStep_pair)
      qed
    qed
  qed
qed

lemma greenLoop_length:
  "length cols = i \<Longrightarrow> i \<le> length G \<Longrightarrow> length (fst (greenLoop G i cols C)) = length G"
proof (induction G i cols C rule: greenLoop.induct)
  case (1 w i guessColors cordleCopy)
  show ?case
    using "1.IH" "1.prems" by (subst greenLoop.simps) simp
qed

lemma evaluateGuess_spec:
  assumes "length S = length G"
  shows "evaluateGuess S G = spec_score S G"
proof -
  have g: "greenLoop G 0 [] (map Some S) = (spec_greenRow S G, spec_greenCopy S G)"
    using assms greenLoop_spec [of 0 G "map Some S" "[]"]
    by (auto simp: spec_greenRow_def spec_greenCopy_def)
  have "length (spec_greenRow S G) = length G" by (simp add: spec_greenRow_def)
  then show ?thesis
    by (simp add: evaluateGuess_def g spec_score_def yellowLoop_spec)
qed


lemma count_list_erase:
  "k < length C \<Longrightarrow> C ! k = Some d \<Longrightarrow>
   count_list C (Some c) = count_list (C[k := None]) (Some c) + (if d = c then 1 else 0)"
proof (induction C arbitrary: k)
  case Nil
  then show ?case by simp
next
  case (Cons x xs)
  then show ?case by (cases k) auto
qed

lemma count_list_map_Some: "count_list (map Some S) (Some c) = count_list S c"
  by (induction S) auto

lemma hits_Nil: "hits c G [] = 0"
  by (simp add: hits_def)

lemma hits_snoc:
  "length cols < length G \<Longrightarrow>
   hits c G (cols @ [x]) = hits c G cols + (if G ! length cols = c \<and> x \<noteq> Gray then 1 else 0)"
proof (induction cols arbitrary: G)
  case Nil
  then show ?case by (cases G) (auto simp: hits_def)
next
  case (Cons y ys)
  then obtain g gs where G: "G = g # gs" by (cases G) auto
  with Cons.prems have "length ys < length gs" by simp
  from Cons.IH [OF this] show ?case
    by (auto simp: G hits_def)
qed

lemma hits_update:
  "i < length cols \<Longrightarrow> i < length G \<Longrightarrow> cols ! i = Gray \<Longrightarrow>
   hits c G (cols[i := Yellow]) = hits c G cols + (if G ! i = c then 1 else 0)"
proof (induction cols arbitrary: G i)
  case Nil
  then show ?case by simp
next
  case (Cons y ys)
  then obtain g gs where G: "G = g # gs" by (cases G) auto
  show ?case
  proof (cases i)
    case 0
    with Cons.prems show ?thesis by (simp add: G hits_def)
  next
    case (Suc j)
    with Cons.prems G have "j < length ys" "j < length gs" "ys ! j = Gray" by simp_all
    from Cons.IH [OF this] show ?thesis
      by (auto simp: G Suc hits_def)
  qed
qed

lemma greenLoop_balance:
  "length cols = i \<Longrightarrow>
   hits c G (fst (greenLoop G i cols C)) + count_list (snd (greenLoop G i cols C)) (Some c)
     = hits c G cols + count_list C (Some c)"
proof (induction G i cols C rule: greenLoop.induct)
  case (1 w i guessColors cordleCopy)
  show ?case
  proof (cases "i < length w")
    case False
    then show ?thesis by (subst (1 2) greenLoop.simps) simp
  next
    case lt: True
    show ?thesis
    proof (cases "i < length cordleCopy \<and> cordleCopy ! i = Some (w ! i)")
      case True
      then have "count_list cordleCopy (Some c) =
          count_list (cordleCopy[i := None]) (Some c) + (if w ! i = c then 1 else 0)"
        by (simp add: count_list_erase)
      moreover have "hits c w (guessColors @ [Green]) =
          hits c w guessColors + (if w ! i = c then 1 else 0)"
        using lt "1.prems" by (simp add: hits_snoc)
      ultimately show ?thesis
        using lt True "1.IH"(1) "1.prems" by (subst (1 2) greenLoop.simps) simp
    next
      case False
      moreover have "hits c w (guessColors @ [Gray]) = hits c w guessColors"
        using lt "1.prems" by (simp add: hits_snoc)
      ultimately show ?thesis
        using lt "1.IH"(2) "1.prems" by (subst (1 2) greenLoop.simps) auto
    qed
  qed
qed

lemma yellowLoop_bound:
  "length cols = length G \<Longrightarrow>
   hits c G (yellowLoop G i cols C) \<le> hits c G cols + count_list C (Some c)"
proof (induction G i cols C rule: yellowLoop.induct)
  case (1 w i guessColors cordleCopy)
  show ?case
  proof (cases "i < length w")
    case False
    then show ?thesis by (subst yellowLoop.simps) simp
  next
    case lt: True
    show ?thesis
    proof (cases "guessColors ! i = Gray")
      case False
      then show ?thesis
        using lt "1.IH"(3) "1.prems" by (subst yellowLoop.simps) simp
    next
      case Gray: True
      show ?thesis
      proof (cases "indexOf cordleCopy (Some (w ! i))")
        case None
        then show ?thesis
          using lt Gray "1.IH"(1) "1.prems" by (subst yellowLoop.simps) simp
      next
        case (Some k)
        then have k: "k < length cordleCopy" "cordleCopy ! k = Some (w ! i)"
          using indexOf_Some [OF Some] by simp_all
        have "hits c w (yellowLoop w (i + 1) (guessColors[i := Yellow]) (cordleCopy[k := None]))
              \<le> hits c w (guessColors[i := Yellow]) + count_list (cordleCopy[k := None]) (Some c)"
          using lt Gray Some "1.IH"(2) "1.prems" by simp
        also have "\<dots> = hits c w guessColors + count_list cordleCopy (Some c)"
          using lt Gray "1.prems" count_list_erase [OF k, of c] by (simp add: hits_update)
        finally show ?thesis
          using lt Gray Some "1.prems" by (subst yellowLoop.simps) simp
      qed
    qed
  qed
qed

lemma evaluateGuess_hits: "hits c G (evaluateGuess S G) \<le> count_list S c"
proof -
  obtain row C where g: "greenLoop G 0 [] (map Some S) = (row, C)"
    by (cases "greenLoop G 0 [] (map Some S)")
  have len: "length row = length G"
    using greenLoop_length [of "[]" 0 G "map Some S"] g by simp
  have "hits c G row + count_list C (Some c) = count_list S c"
    using greenLoop_balance [of "[]" 0 c G "map Some S"] g
    by (simp add: hits_Nil count_list_map_Some)
  moreover have "hits c G (yellowLoop G 0 row C) \<le> hits c G row + count_list C (Some c)"
    using len by (rule yellowLoop_bound)
  ultimately show ?thesis
    by (simp add: evaluateGuess_def g)
qed


lemma evaluateGuess_length: "length (evaluateGuess S G) = length G"
proof -
  obtain row C where g: "greenLoop G 0 [] (map Some S) = (row, C)"
    by (cases "greenLoop G 0 [] (map Some S)")
  have "length row = length G"
    using greenLoop_length [of "[]" 0 G "map Some S"] g by simp
  then show ?thesis
    by (simp add: evaluateGuess_def g yellowLoop_length)
qed

lemma arrayStore_nth: "arrayStore xs i v ! i = Some v"
  by (simp add: arrayStore_def nth_append)

lemma storeRow_nth: "0 < n \<Longrightarrow> storeRow rows n v ! (n - 1) = Some v"
  by (simp add: storeRow_def arrayStore_nth)

lemma applyGuess_guessesEvaluated:
  "guessesEvaluated (applyGuess g guess) =
     storeRow (guessesEvaluated g) (guessNumber guess)
       (evaluateGuess (case cordle g of None \<Rightarrow> [] | Some w \<Rightarrow> w) (guessedWord guess))"
  by (simp add: applyGuess_def Let_def)

text \<open>
  Claim C1. For a secret \<open>S\<close> and a guess \<open>G\<close> of the same length, the row that
  \<open>_applyGuess\<close> computes and stores at index \<open>guessNumber - 1\<close> is the row of the two
  passes the specification describes: green where guess and copy agree, the letter being
  erased, then yellow for each remaining gray cell whose letter still has a leftmost
  occurrence in the copy, that occurrence being erased. The row has one cell per letter,
  and no letter of the guess collects more green and yellow cells than the secret has
  occurrences of it. Secret SATIN against guess TOOTH gives yellow, gray, gray, gray,
  gray.
\<close>

theorem C1_two_pass_scoring:
  assumes "length S = length G"
  shows "evaluateGuess S G = spec_score S G
       \<and> length (evaluateGuess S G) = length G
       \<and> (\<forall>c. hits c G (evaluateGuess S G) \<le> count_list S c)
       \<and> (\<forall>g guess. cordle g = Some S \<and> guessedWord guess = G \<and> 0 < guessNumber guess \<longrightarrow>
             guessesEvaluated (applyGuess g guess) ! (guessNumber guess - 1)
               = Some (evaluateGuess S G))
       \<and> evaluateGuess ''SATIN'' ''TOOTH'' = [Yellow, Gray, Gray, Gray, Gray]"
proof (intro conjI allI impI)
  show "evaluateGuess S G = spec_score S G"
    using assms by (rule evaluateGuess_spec)
  show "length (evaluateGuess S G) = length G"
    by (rule evaluateGuess_length)
  show "hits c G (evaluateGuess S G) \<le> count_list S c" for c
    by (rule evaluateGuess_hits)
  show "guessesEvaluated (applyGuess g guess) ! (guessNumber guess - 1)
          = Some (evaluateGuess S G)"
    if "cordle g = Some S \<and> guessedWord guess = G \<and> 0 < guessNumber guess" for g guess
    using that storeRow_nth [of "guessNumber guess"]
    by (simp add: applyGuess_guessesEvaluated)
  show "evaluateGuess ''SATIN'' ''TOOTH'' = [Yellow, Gray, Gray, Gray, Gray]"
    by code_simp
qed

theorem C1_two_pass_scoring_witness:
  "length ''SATIN'' = length ''TOOTH''
   \<and> spec_score ''SATIN'' ''TOOTH'' = [Yellow, Gray, Gray, Gray, Gray]
   \<and> hits CHR ''T'' ''TOOTH'' [Yellow, Gray, Gray, Gray, Gray] \<le> count_list ''SATIN'' CHR ''T''"
proof -
  have len: "length ''SATIN'' = length ''TOOTH''" by simp
  note t = C1_two_pass_scoring [OF len]
  from t have r: "evaluateGuess ''SATIN'' ''TOOTH'' = [Yellow, Gray, Gray, Gray, Gray]"
    by (elim conjE)
  from t have "evaluateGuess ''SATIN'' ''TOOTH'' = spec_score ''SATIN'' ''TOOTH''"
    by (elim conjE)
  with r have s: "spec_score ''SATIN'' ''TOOTH'' = [Yellow, Gray, Gray, Gray, Gray]"
    by simp
  from t have "hits CHR ''T'' ''TOOTH'' (evaluateGuess ''SATIN'' ''TOOTH'')
                 \<le> count_list ''SATIN'' CHR ''T''"
    by (elim conjE) (erule allE)
  then have h: "hits CHR ''T'' ''TOOTH'' [Yellow, Gray, Gray, Gray, Gray]
                 \<le> count_list ''SATIN'' CHR ''T''"
    unfolding r .
  from len s h show ?thesis by (intro conjI)
qed

section \<open>Lifecycle\<close>

lemmas game_defs = newGame_def join_def bothJoined_def truthy_def startGame_def selectedCordle_def
  toUpperCase_def toUpperChar_def setDifficultyLevel_def removePlayer_def leave_def whoseTurn_def
  arrayStore_def storeRow_def applyGuess_def applyMove_def post_def DRAW_def Let_def
  drawApple_def drawGrape_def wrongGuess_def

text \<open>
  Claim C5. \<open>whoseTurn\<close> depends only on \<open>firstPlayer\<close> and on the number of guesses:
  with \<open>firstPlayer = Player1\<close> it is slot 1 for an even number of guesses and slot 2 for
  an odd number, and the other way round with \<open>firstPlayer = Player2\<close>. Two instances
  that agree on both give the same answer, so a repeated call with no new guess returns
  the same slot.
\<close>

theorem C5_whoseTurn_parity:
  "(firstPlayer g = Player1 \<and> even (length (guesses g)) \<longrightarrow> whoseTurn g = Player1)
   \<and> (firstPlayer g = Player1 \<and> odd (length (guesses g)) \<longrightarrow> whoseTurn g = Player2)
   \<and> (firstPlayer g = Player2 \<and> even (length (guesses g)) \<longrightarrow> whoseTurn g = Player2)
   \<and> (firstPlayer g = Player2 \<and> odd (length (guesses g)) \<longrightarrow> whoseTurn g = Player1)
   \<and> (\<forall>g'. firstPlayer g' = firstPlayer g \<and> length (guesses g') = length (guesses g)
          \<longrightarrow> whoseTurn g' = whoseTurn g)"
  by (cases "firstPlayer g") (simp_all add: whoseTurn_def flip: even_iff_mod_2_eq_zero)


theorem C5_whoseTurn_parity_witness:
  "firstPlayer playingGame = Player1 \<and> even (length (guesses playingGame))
   \<and> whoseTurn playingGame = Player1
   \<and> whoseTurn (post (applyMove playingGame (wrongGuess ''A'' 1))) = Player2
   \<and> whoseTurn (playingGame\<lparr>winner := Some ''A''\<rparr>) = whoseTurn playingGame"
proof -
  let ?g1 = "post (applyMove playingGame (wrongGuess ''A'' 1))"
  let ?g2 = "playingGame\<lparr>winner := Some ''A''\<rparr>"
  have a1: "firstPlayer playingGame = Player1" by code_simp
  have a2: "even (length (guesses playingGame))" by code_simp
  have b1: "firstPlayer ?g1 = Player1" by code_simp
  have "length (guesses ?g1) = 1" by code_simp
  then have b2: "odd (length (guesses ?g1))" by simp
  have c1: "firstPlayer ?g2 = firstPlayer playingGame
            \<and> length (guesses ?g2) = length (guesses playingGame)"
    by simp
  from C5_whoseTurn_parity [of playingGame] a1 a2 have c: "whoseTurn playingGame = Player1"
    by blast
  from C5_whoseTurn_parity [of ?g1] b1 b2 have d: "whoseTurn ?g1 = Player2"
    by blast
  from C5_whoseTurn_parity [of playingGame] c1 have e: "whoseTurn ?g2 = whoseTurn playingGame"
    by blast
  from a1 a2 c d e show ?thesis by (intro conjI)
qed

lemma leave_occupant_in_progress:
  assumes "status g = IN_PROGRESS" and "player1 g = Some p \<or> player2 g = Some p"
  shows "\<exists>g'. leave g p = Inr g' \<and> status g' = OVER
            \<and> winner g' = (if player1 g = Some p then player2 g else player1 g)"
  using assms by (auto simp: leave_def removePlayer_def)

lemma leave_occupant_waiting:
  assumes "status g = WAITING_FOR_PLAYERS \<or> status g = WAITING_TO_START"
      and "player1 g = Some p \<or> player2 g = Some p"
  shows "\<exists>g'. leave g p = Inr g' \<and> status g' = WAITING_FOR_PLAYERS \<and> winner g' = winner g"
  using assms by (auto simp: leave_def removePlayer_def)

lemma leave_waiting_winner:
  assumes "status g = WAITING_FOR_PLAYERS \<or> status g = WAITING_TO_START"
  shows "winner (post (leave g p)) = winner g"
  using assms by (auto simp: leave_def removePlayer_def post_def)

text \<open>
  Claim C4. When a slot occupant leaves a game in progress, the status becomes \<open>OVER\<close>
  and the winner is the occupant of the other slot, or unset when that slot is empty.
  When a slot occupant leaves while the game waits for players or waits to start, the
  status is \<open>WAITING_FOR_PLAYERS\<close> afterwards and the winner is as before; no call of
  \<open>_leave\<close> in these two statuses changes the winner.
\<close>

theorem C4_leave_outcome:
  "(status g = IN_PROGRESS \<and> (player1 g = Some p \<or> player2 g = Some p) \<longrightarrow>
      (\<exists>g'. leave g p = Inr g' \<and> status g' = OVER
           \<and> winner g' = (if player1 g = Some p then player2 g else player1 g)))
   \<and> ((status g = WAITING_FOR_PLAYERS \<or> status g = WAITING_TO_START)
        \<and> (player1 g = Some p \<or> player2 g = Some p) \<longrightarrow>
      (\<exists>g'. leave g p = Inr g' \<and> status g' = WAITING_FOR_PLAYERS \<and> winner g' = winner g))
   \<and> (status g = WAITING_FOR_PLAYERS \<or> status g = WAITING_TO_START \<longrightarrow>
      winner (post (leave g p)) = winner g)"
  using leave_occupant_in_progress [of g p] leave_occupant_waiting [of g p]
    leave_waiting_winner [of g p]
  by blast

lemma playingGame_eq:
  "playingGame =
     \<lparr>guesses = [], status = IN_PROGRESS, firstPlayer = Player1, cordle = Some [],
      guessesEvaluated = [], difficulty = None, player1 = Some ''A'', player2 = Some ''B'',
      player1Ready = True, player2Ready = True, winner = None, preferredPlayer1 = None,
      preferredPlayer2 = None\<rparr>"
  by (simp add: playingGame_def game_defs)

theorem C4_leave_outcome_witness:
  "status playingGame = IN_PROGRESS \<and> player1 playingGame = Some ''A''
   \<and> status (post (leave playingGame ''A'')) = OVER
   \<and> winner (post (leave playingGame ''A'')) = Some ''B''
   \<and> status (newGame None) = WAITING_FOR_PLAYERS
   \<and> winner (post (leave (newGame None) ''A'')) = None"
proof -
  have a: "status playingGame = IN_PROGRESS \<and> player1 playingGame = Some ''A''"
    by (simp add: playingGame_eq)
  with C4_leave_outcome [of playingGame "''A''"]
  obtain g' where "leave playingGame ''A'' = Inr g'" "status g' = OVER"
    "winner g' = (if player1 playingGame = Some ''A'' then player2 playingGame
                  else player1 playingGame)"
    by blast
  then have b: "status (post (leave playingGame ''A'')) = OVER
      \<and> winner (post (leave playingGame ''A'')) = Some ''B''"
    by (simp add: post_def playingGame_eq)
  have c: "status (newGame None) = WAITING_FOR_PLAYERS"
    by (simp add: newGame_def)
  with C4_leave_outcome [of "newGame None" "''A''"]
  have "winner (post (leave (newGame None) ''A'')) = winner (newGame None)"
    by blast
  then have "winner (post (leave (newGame None) ''A'')) = None"
    by (simp add: newGame_def)
  with a b c show ?thesis by blast
qed


lemma leave_over: "status g = OVER \<Longrightarrow> leave g p = Inr g"
  by (simp add: leave_def)

lemma leave_stranger:
  "status g \<noteq> OVER \<Longrightarrow> player1 g \<noteq> Some p \<Longrightarrow> player2 g \<noteq> Some p \<Longrightarrow>
   leave g p = Inl (PLAYER_NOT_IN_GAME, g)"
  by (simp add: leave_def removePlayer_def)

lemma abandonedGame_eq:
  "abandonedGame =
     \<lparr>guesses = [], status = OVER, firstPlayer = Player1, cordle = Some [],
      guessesEvaluated = [], difficulty = None, player1 = None, player2 = Some ''B'',
      player1Ready = False, player2Ready = True, winner = Some ''B'', preferredPlayer1 = None,
      preferredPlayer2 = None\<rparr>"
  by (simp add: abandonedGame_def playingGame_eq leave_def removePlayer_def post_def)

text \<open>
  Claim C8. The documentation of \<open>_leave\<close> promises \<open>PLAYER_NOT_IN_GAME\<close> for a
  player who is in neither slot, and the claim asks for it in every status. Outside
  \<open>OVER\<close> the method does throw it (\<open>leave_stranger\<close>). In a finished game the method
  returns before it looks at the slots (\<open>leave_over\<close>): below, a player who is in
  neither slot leaves a finished game, and the call returns with the instance unchanged.
\<close>

theorem C8_leave_finished_game:
  "status abandonedGame = OVER
   \<and> player1 abandonedGame \<noteq> Some ''Z'' \<and> player2 abandonedGame \<noteq> Some ''Z''
   \<and> leave abandonedGame ''Z'' = Inr abandonedGame"
  by (simp add: abandonedGame_eq leave_def)

lemma join_failure: "join g p = Inl (e, g') \<Longrightarrow> g' = g \<and> e \<noteq> UNEXPECTED_GAME_STATUS"
  by (auto simp: join_def split: if_splits)

lemma startGame_returns:
  "status g = WAITING_TO_START \<Longrightarrow> player1 g = Some p \<or> player2 g = Some p \<Longrightarrow>
   \<exists>g'. startGame w g p = Inr g'"
  by (auto simp: startGame_def Let_def)

lemma startGame_failure:
  assumes "startGame w g p = Inl (e, g')"
  shows "g' = g \<and> e \<noteq> UNEXPECTED_GAME_STATUS"
proof (cases "status g = WAITING_TO_START")
  case False
  with assms show ?thesis by (simp add: startGame_def)
next
  case True
  show ?thesis
  proof (cases "player1 g = Some p \<or> player2 g = Some p")
    case False
    with assms True show ?thesis by (simp add: startGame_def)
  next
    case occupant: True
    from startGame_returns [OF True occupant, of w] assms show ?thesis by auto
  qed
qed

lemma removePlayer_status:
  "removePlayer g p = Inr (n, g1) \<Longrightarrow> status g1 = status g"
  by (auto simp: removePlayer_def split: if_splits)

lemma removePlayer_failure:
  "removePlayer g p = Inl (e, g') \<Longrightarrow> g' = g \<and> e = PLAYER_NOT_IN_GAME"
  by (auto simp: removePlayer_def split: if_splits)

lemma leave_failure:
  assumes "leave g p = Inl (e, g')"
  shows "g' = g \<and> e \<noteq> UNEXPECTED_GAME_STATUS"
proof (cases "status g = OVER")
  case True
  with assms show ?thesis by (simp add: leave_def)
next
  case False
  show ?thesis
  proof (cases "removePlayer g p")
    case (Inl a)
    with assms False have "a = (e, g')" by (simp add: leave_def)
    with Inl removePlayer_failure [of g p e g'] show ?thesis by simp
  next
    case (Inr b)
    obtain n g1 where b: "b = (n, g1)" by (cases b)
    with Inr have "status g1 = status g" by (simp add: removePlayer_status)
    with assms False Inr b show ?thesis
      by (cases "status g") (simp_all add: leave_def)
  qed
qed

lemma applyMove_failure:
  "applyMove g guess = Inl (e, g') \<Longrightarrow> g' = g \<and> e \<noteq> UNEXPECTED_GAME_STATUS"
  by (auto simp: applyMove_def Let_def split: if_splits)

text \<open>
  Claim C9. A call of \<open>_join\<close>, \<open>_leave\<close>, \<open>startGame\<close> or \<open>applyMove\<close> that throws
  leaves the instance exactly as it was before the call, and what it throws is one of
  the documented messages: the \<open>default\<close> branch of \<open>_leave\<close>, which would throw after
  a slot was vacated, is never taken.
\<close>

theorem C9_failed_call_changes_nothing:
  assumes "exec c g = Inl (e, g')"
  shows "g' = g \<and> e \<noteq> UNEXPECTED_GAME_STATUS"
proof (cases c)
  case (Join p)
  with assms show ?thesis by (simp add: join_failure)
next
  case (Leave p)
  with assms show ?thesis by (simp add: leave_failure)
next
  case (StartGame w p)
  with assms show ?thesis by (simp add: startGame_failure)
next
  case (SetDifficultyLevel d)
  with assms show ?thesis by simp
next
  case (ApplyMove guess)
  with assms show ?thesis by (simp add: applyMove_failure)
qed

theorem C9_failed_call_changes_nothing_witness:
  "exec (Join ''C'') playingGame = Inl (GAME_FULL, post (exec (Join ''C'') playingGame))
   \<and> post (exec (Join ''C'') playingGame) = playingGame
   \<and> exec (Leave ''C'') playingGame
        = Inl (PLAYER_NOT_IN_GAME, post (exec (Leave ''C'') playingGame))
   \<and> post (exec (Leave ''C'') playingGame) = playingGame
   \<and> exec (StartGame drawApple ''A'') playingGame
        = Inl (GAME_NOT_STARTABLE, post (exec (StartGame drawApple ''A'') playingGame))
   \<and> post (exec (StartGame drawApple ''A'') playingGame) = playingGame
   \<and> exec (ApplyMove (wrongGuess ''B'' 1)) playingGame
        = Inl (MOVE_NOT_YOUR_TURN, post (exec (ApplyMove (wrongGuess ''B'' 1)) playingGame))
   \<and> post (exec (ApplyMove (wrongGuess ''B'' 1)) playingGame) = playingGame"
proof -
  have j: "exec (Join ''C'') playingGame
             = Inl (GAME_FULL, post (exec (Join ''C'') playingGame))"
    by (simp add: playingGame_eq join_def truthy_def post_def)
  have l: "exec (Leave ''C'') playingGame
             = Inl (PLAYER_NOT_IN_GAME, post (exec (Leave ''C'') playingGame))"
    by (simp add: playingGame_eq leave_def removePlayer_def post_def)
  have s: "exec (StartGame drawApple ''A'') playingGame
             = Inl (GAME_NOT_STARTABLE, post (exec (StartGame drawApple ''A'') playingGame))"
    by (simp add: playingGame_eq startGame_def post_def)
  have a: "exec (ApplyMove (wrongGuess ''B'' 1)) playingGame
             = Inl (MOVE_NOT_YOUR_TURN, post (exec (ApplyMove (wrongGuess ''B'' 1)) playingGame))"
    by (simp add: playingGame_eq applyMove_def whoseTurn_def wrongGuess_def post_def)
  note j' = C9_failed_call_changes_nothing [OF j, THEN conjunct1]
    and l' = C9_failed_call_changes_nothing [OF l, THEN conjunct1]
    and s' = C9_failed_call_changes_nothing [OF s, THEN conjunct1]
    and a' = C9_failed_call_changes_nothing [OF a, THEN conjunct1]
  from j j' l l' s s' a a' show ?thesis by (intro conjI)
qed


section \<open>Starting\<close>

lemma oneReadyGame_eq:
  "oneReadyGame =
     \<lparr>guesses = [], status = WAITING_TO_START, firstPlayer = Player1, cordle = Some ''APPLE'',
      guessesEvaluated = [], difficulty = Some Easy, player1 = Some ''A'', player2 = Some ''B'',
      player1Ready = True, player2Ready = False, winner = None, preferredPlayer1 = None,
      preferredPlayer2 = None\<rparr>"
  by (simp add: oneReadyGame_def game_defs)

text \<open>
  Claim C2, as stated, fails. Two players have joined, the difficulty is Easy, and the
  player of slot 1, who moves first, has started once: the secret is APPLE. The same
  player starts again while the word provider returns another word: the call returns,
  and the secret is now GRAPE.
\<close>

theorem C2_repeated_start_counterexample:
  "status oneReadyGame = WAITING_TO_START
   \<and> player1 oneReadyGame = Some ''A'' \<and> player1Ready oneReadyGame
   \<and> cordle oneReadyGame = Some ''APPLE''
   \<and> cordle (post (startGame drawGrape oneReadyGame ''A'')) = Some ''GRAPE''
   \<and> post (startGame drawGrape oneReadyGame ''A'') \<noteq> oneReadyGame"
  by (simp add: oneReadyGame_eq game_defs)

lemma ready1_again: "player1Ready g \<Longrightarrow> g\<lparr>player1Ready := True\<rparr> = g"
  by (cases g) simp

lemma ready2_again: "player2Ready g \<Longrightarrow> g\<lparr>player2Ready := True\<rparr> = g"
  by (cases g) simp

lemma startGame_ready_again:
  assumes "status g = WAITING_TO_START"
    and "player1 g = Some p \<or> player2 g = Some p"
    and r1: "(if player1 g = Some p then g\<lparr>player1Ready := True\<rparr> else g) = g"
    and r2: "(if player2 g = Some p then g\<lparr>player2Ready := True\<rparr> else g) = g"
  shows "startGame w g p = 
     (let g3 = (if \<not> (preferredPlayer1 g = player1 g \<or> preferredPlayer2 g = player2 g)
                  then g\<lparr>firstPlayer := Player1\<rparr> else g)
        in
          if truthy (player1 g3) \<and> truthy (player2 g3) then
            let g4 = (if (firstPlayer g3 = Player1 \<and> Some p = player1 g3)
                         \<or> (firstPlayer g3 = Player2 \<and> Some p = player2 g3)
                      then g3\<lparr>cordle :=
                             Some (toUpperCase (selectedCordle w (difficulty g3)))\<rparr>
                      else g3)
            in Inr (g4\<lparr>status :=
                       (if player1Ready g4 \<and> player2Ready g4 then IN_PROGRESS
                        else WAITING_TO_START)\<rparr>)
          else Inr g3)"
  unfolding startGame_def using assms(1,2)
  apply (simp only: r1 r2 Let_def)
  apply (simp only: r1 r2 Let_def if_False if_True simp_thms)
  apply auto
  done

text \<open>
  Claim C2, amended. In a game that waits to start, a player whose ready flag is already
  set starts again. The call returns, and it leaves every field as it was except
  \<open>firstPlayer\<close>, the secret word and the status: \<open>firstPlayer\<close> is forced to slot 1
  when neither slot holds its preferred id and is kept otherwise; the secret word is
  drawn again when both slots are occupied and the caller sits in the slot that moves
  first, and is kept otherwise; the status stays \<open>WAITING_TO_START\<close> unless both slots
  are occupied and both ready flags are set.
\<close>

theorem C2_repeated_start:
  assumes "status g = WAITING_TO_START"
    and "player1 g = Some p \<or> player2 g = Some p"
    and "player1 g = Some p \<longrightarrow> player1Ready g"
    and "player2 g = Some p \<longrightarrow> player2Ready g"
  shows "\<exists>g'. startGame w g p = Inr g'
     \<and> g' = g\<lparr>firstPlayer := firstPlayer g', cordle := cordle g', status := status g'\<rparr>
     \<and> firstPlayer g' =
         (if preferredPlayer1 g \<noteq> player1 g \<and> preferredPlayer2 g \<noteq> player2 g
          then Player1 else firstPlayer g)
     \<and> cordle g' =
         (if truthy (player1 g) \<and> truthy (player2 g)
             \<and> ((firstPlayer g' = Player1 \<and> player1 g = Some p)
                  \<or> (firstPlayer g' = Player2 \<and> player2 g = Some p))
          then Some (toUpperCase (selectedCordle w (difficulty g))) else cordle g)
     \<and> status g' =
         (if truthy (player1 g) \<and> truthy (player2 g) \<and> player1Ready g \<and> player2Ready g
          then IN_PROGRESS else WAITING_TO_START)"
proof -
  have r1: "(if player1 g = Some p then g\<lparr>player1Ready := True\<rparr> else g) = g"
    using assms(3) by (simp add: ready1_again)
  have r2: "(if player2 g = Some p then g\<lparr>player2Ready := True\<rparr> else g) = g"
    using assms(4) by (simp add: ready2_again)
  note eq = startGame_ready_again [OF assms(1,2) r1 r2, of w]
  define fp where "fp =
    (if preferredPlayer1 g \<noteq> player1 g \<and> preferredPlayer2 g \<noteq> player2 g
     then Player1 else firstPlayer g)"
  define cw where "cw =
    (if truthy (player1 g) \<and> truthy (player2 g)
        \<and> ((fp = Player1 \<and> player1 g = Some p) \<or> (fp = Player2 \<and> player2 g = Some p))
     then Some (toUpperCase (selectedCordle w (difficulty g))) else cordle g)"
  define st where "st =
    (if truthy (player1 g) \<and> truthy (player2 g) \<and> player1Ready g \<and> player2Ready g
     then IN_PROGRESS else WAITING_TO_START)"
  define g' where "g' = g\<lparr>firstPlayer := fp, cordle := cw, status := st\<rparr>"
  have g3: "(if \<not> (preferredPlayer1 g = player1 g \<or> preferredPlayer2 g = player2 g)
             then g\<lparr>firstPlayer := Player1\<rparr> else g) = g\<lparr>firstPlayer := fp\<rparr>"
    by (simp add: fp_def)
  have res: "startGame w g p = Inr g'"
  proof (cases "truthy (player1 g) \<and> truthy (player2 g)")
    case False
    then have c: "cw = cordle g" and s: "st = status g"
      using assms(1) by (auto simp: cw_def st_def)
    from False have nb: "(truthy (player1 g) \<and> truthy (player2 g)) = False"
      by simp
    show ?thesis
      unfolding eq g3 Let_def g'_def c s by (simp add: nb)
  next
    case True
    then have tb: "(truthy (player1 g) \<and> truthy (player2 g)) = True"
      by simp
    from True have s: "st = (if player1Ready g \<and> player2Ready g then IN_PROGRESS
                             else WAITING_TO_START)"
      by (auto simp: st_def)
    show ?thesis
    proof (cases "(fp = Player1 \<and> Some p = player1 g) \<or> (fp = Player2 \<and> Some p = player2 g)")
      case drawn: True
      with True have c: "cw = Some (toUpperCase (selectedCordle w (difficulty g)))"
        by (auto simp: cw_def)
      from drawn
      have d: "((fp = Player1 \<and> Some p = player1 g) \<or> (fp = Player2 \<and> Some p = player2 g)) = True"
        by simp
      show ?thesis
        unfolding eq g3 Let_def g'_def c s by (simp add: tb d)
    next
      case kept: False
      with True have c: "cw = cordle g"
        by (auto simp: cw_def)
      from kept
      have d: "((fp = Player1 \<and> Some p = player1 g) \<or> (fp = Player2 \<and> Some p = player2 g)) = False"
        by simp
      show ?thesis
        unfolding eq g3 Let_def g'_def c s by (simp add: tb d)
    qed
  qed
  have f1: "firstPlayer g' = fp" and f2: "cordle g' = cw" and f3: "status g' = st"
    by (simp_all add: g'_def)
  have frame: "g' = g\<lparr>firstPlayer := firstPlayer g', cordle := cordle g', status := status g'\<rparr>"
    unfolding f1 f2 f3 by (simp add: g'_def)
  show ?thesis
  proof (intro exI [of _ g'] conjI)
    show "startGame w g p = Inr g'" by (rule res)
    show "g' = g\<lparr>firstPlayer := firstPlayer g', cordle := cordle g', status := status g'\<rparr>"
      by (rule frame)
    show "firstPlayer g' =
         (if preferredPlayer1 g \<noteq> player1 g \<and> preferredPlayer2 g \<noteq> player2 g
          then Player1 else firstPlayer g)"
      unfolding f1 by (rule fp_def)
    show "cordle g' =
         (if truthy (player1 g) \<and> truthy (player2 g)
             \<and> ((firstPlayer g' = Player1 \<and> player1 g = Some p)
                  \<or> (firstPlayer g' = Player2 \<and> player2 g = Some p))
          then Some (toUpperCase (selectedCordle w (difficulty g))) else cordle g)"
      unfolding f1 f2 by (rule cw_def)
    show "status g' =
         (if truthy (player1 g) \<and> truthy (player2 g) \<and> player1Ready g \<and> player2Ready g
          then IN_PROGRESS else WAITING_TO_START)"
      unfolding f3 by (rule st_def)
  qed
qed

theorem C2_repeated_start_witness:
  "status oneReadyGame = WAITING_TO_START
   \<and> player1 oneReadyGame = Some ''A'' \<and> player1Ready oneReadyGame
   \<and> player2 oneReadyGame \<noteq> Some ''A''
   \<and> startGame drawGrape oneReadyGame ''A'' = Inr (oneReadyGame\<lparr>cordle := Some ''GRAPE''\<rparr>)"
proof -
  have a: "status oneReadyGame = WAITING_TO_START"
    and b: "player1 oneReadyGame = Some ''A''"
    and c: "player1Ready oneReadyGame"
    and d: "player2 oneReadyGame \<noteq> Some ''A''"
    by (simp_all add: oneReadyGame_eq)
  from C2_repeated_start [of oneReadyGame "''A''" drawGrape] a b c d
  obtain g' where g': "startGame drawGrape oneReadyGame ''A'' = Inr g'"
      "g' = oneReadyGame\<lparr>firstPlayer := firstPlayer g', cordle := cordle g', status := status g'\<rparr>"
      "firstPlayer g' =
         (if preferredPlayer1 oneReadyGame \<noteq> player1 oneReadyGame
             \<and> preferredPlayer2 oneReadyGame \<noteq> player2 oneReadyGame
          then Player1 else firstPlayer oneReadyGame)"
      "cordle g' =
         (if truthy (player1 oneReadyGame) \<and> truthy (player2 oneReadyGame)
             \<and> ((firstPlayer g' = Player1 \<and> player1 oneReadyGame = Some ''A'')
                  \<or> (firstPlayer g' = Player2 \<and> player2 oneReadyGame = Some ''A''))
          then Some (toUpperCase (selectedCordle drawGrape (difficulty oneReadyGame)))
          else cordle oneReadyGame)"
      "status g' =
         (if truthy (player1 oneReadyGame) \<and> truthy (player2 oneReadyGame)
             \<and> player1Ready oneReadyGame \<and> player2Ready oneReadyGame
          then IN_PROGRESS else WAITING_TO_START)"
    by blast
  have fp: "firstPlayer g' = Player1"
    using g'(3) by (simp add: oneReadyGame_eq)
  have cw: "cordle g' = Some ''GRAPE''"
    using g'(4) fp
    by (simp add: oneReadyGame_eq truthy_def selectedCordle_def drawGrape_def toUpperCase_def
        toUpperChar_def)
  have st: "status g' = WAITING_TO_START"
    using g'(5) by (simp add: oneReadyGame_eq)
  have "g' = oneReadyGame\<lparr>cordle := Some ''GRAPE''\<rparr>"
    by (subst g'(2)) (simp add: fp cw st oneReadyGame_eq)
  with g'(1) a b c d show ?thesis by simp
qed


section \<open>The first player\<close>

lemma priorGame_eq:
  "priorGame =
     \<lparr>guesses = [], status = OVER, firstPlayer = Player1, cordle = Some [],
      guessesEvaluated = [], difficulty = None, player1 = Some ''A'', player2 = None,
      player1Ready = True, player2Ready = False, winner = Some ''A'', preferredPlayer1 = None,
      preferredPlayer2 = None\<rparr>"
  by (simp add: priorGame_def playingGame_eq leave_def removePlayer_def post_def)

lemma crossSlotGame_eq:
  "crossSlotGame =
     \<lparr>guesses = [], status = WAITING_TO_START, firstPlayer = Player2, cordle = None,
      guessesEvaluated = [], difficulty = None, player1 = Some ''X'', player2 = Some ''A'',
      player1Ready = False, player2Ready = False, winner = None,
      preferredPlayer1 = Some ''A'', preferredPlayer2 = None\<rparr>"
  by (simp add: crossSlotGame_def priorGame_eq newGame_def join_def bothJoined_def truthy_def
      post_def)

subsection \<open>What the calls do to \<open>firstPlayer\<close>\<close>

text \<open>
  A start that returns forces \<open>firstPlayer\<close> to slot 1 exactly when slot 1 does not hold
  the preferred id of slot 1 and slot 2 does not hold the preferred id of slot 2: the
  comparison is slot by slot. Otherwise the value is kept.
\<close>

lemma startGame_firstPlayer:
  assumes "startGame w g p = Inr g'"
  shows "firstPlayer g' =
           (if preferredPlayer1 g \<noteq> player1 g \<and> preferredPlayer2 g \<noteq> player2 g
            then Player1 else firstPlayer g)"
proof -
  from assms have ok: "status g = WAITING_TO_START" "player1 g = Some p \<or> player2 g = Some p"
    by (auto simp: startGame_def split: if_splits)
  then have "firstPlayer (post (startGame w g p)) =
           (if preferredPlayer1 g \<noteq> player1 g \<and> preferredPlayer2 g \<noteq> player2 g
            then Player1 else firstPlayer g)"
    by (auto simp: startGame_def Let_def post_def)
  with assms show ?thesis by (simp add: post_def)
qed

text \<open>No other call changes \<open>firstPlayer\<close>, and a call that throws does not either.\<close>

lemma join_firstPlayer: "firstPlayer (post (join g p)) = firstPlayer g"
  by (simp add: join_def bothJoined_def post_def)

lemma leave_firstPlayer: "firstPlayer (post (leave g p)) = firstPlayer g"
  by (simp add: leave_def removePlayer_def post_def split: GameStatus.splits)

lemma setDifficultyLevel_firstPlayer: "firstPlayer (setDifficultyLevel g d) = firstPlayer g"
  by (simp add: setDifficultyLevel_def)

lemma applyMove_firstPlayer: "firstPlayer (post (applyMove g guess)) = firstPlayer g"
  by (simp add: applyMove_def applyGuess_def Let_def post_def)

lemma startGame_post_firstPlayer:
  "firstPlayer (post (startGame w g p)) =
     (if status g = WAITING_TO_START \<and> (player1 g = Some p \<or> player2 g = Some p)
         \<and> preferredPlayer1 g \<noteq> player1 g \<and> preferredPlayer2 g \<noteq> player2 g
      then Player1 else firstPlayer g)"
proof (cases "startGame w g p")
  case (Inl a)
  obtain e g' where a: "a = (e, g')" by (cases a)
  with Inl startGame_failure [of w g p e g'] have "post (startGame w g p) = g"
    by (simp add: post_def)
  moreover from Inl have "\<not> (status g = WAITING_TO_START \<and> (player1 g = Some p \<or> player2 g = Some p))"
    using startGame_returns [of g p w] by auto
  ultimately show ?thesis by auto
next
  case (Inr g')
  then have "status g = WAITING_TO_START" "player1 g = Some p \<or> player2 g = Some p"
    by (auto simp: startGame_def split: if_splits)
  with Inr startGame_firstPlayer [OF Inr] show ?thesis
    by (simp add: post_def)
qed

lemma exec_firstPlayer:
  "firstPlayer (post (exec c g)) =
     (case c of
        StartGame w p \<Rightarrow>
          (if status g = WAITING_TO_START \<and> (player1 g = Some p \<or> player2 g = Some p)
              \<and> preferredPlayer1 g \<noteq> player1 g \<and> preferredPlayer2 g \<noteq> player2 g
           then Player1 else firstPlayer g)
      | _ \<Rightarrow> firstPlayer g)"
proof (cases c)
  case (Join p)
  then show ?thesis by (simp add: join_firstPlayer)
next
  case (Leave p)
  then show ?thesis by (simp add: leave_firstPlayer)
next
  case (StartGame w p)
  then show ?thesis by (simp add: startGame_post_firstPlayer)
next
  case (SetDifficultyLevel d)
  then show ?thesis by (simp add: setDifficultyLevel_firstPlayer post_def)
next
  case (ApplyMove guess)
  then show ?thesis by (simp add: applyMove_firstPlayer)
qed

text \<open>
  So, whatever calls are made on an instance, \<open>firstPlayer\<close> is the value the
  constructor gave it or slot 1; once forced to slot 1 it stays there.
\<close>

lemma exec_firstPlayer_kept_or_forced:
  "firstPlayer (post (exec c g)) = firstPlayer g \<or> firstPlayer (post (exec c g)) = Player1"
  by (simp add: exec_firstPlayer split: Command.splits)

lemma run_firstPlayer:
  "run cs g = Inr g' \<Longrightarrow> firstPlayer g' = firstPlayer g \<or> firstPlayer g' = Player1"
proof (induction cs arbitrary: g)
  case Nil
  then show ?case by simp
next
  case (Cons c cs)
  from Cons.prems obtain g1 where g1: "exec c g = Inr g1" and rest: "run cs g1 = Inr g'"
    by (auto split: sum.splits)
  from g1 exec_firstPlayer_kept_or_forced [of c g]
  have "firstPlayer g1 = firstPlayer g \<or> firstPlayer g1 = Player1"
    by (simp add: post_def)
  with Cons.IH [OF rest] show ?case by auto
qed

lemma run_firstPlayer_forced:
  "run cs g = Inr g' \<Longrightarrow> firstPlayer g = Player1 \<Longrightarrow> firstPlayer g' = Player1"
  using run_firstPlayer [of cs g g'] by auto

text \<open>
  On a fresh instance, the two players of a prior game whose \<open>firstPlayer\<close> was slot 1
  join in their old slots and start: slot 2 moves first. Two players who are neither of
  the preferred ids join and start: slot 1 moves first.
\<close>

lemma rematch_same_slots:
  assumes "firstPlayer pg = Player1" and "player1 pg = Some a" and "player2 pg = Some b"
    and "a \<noteq> []" and "b \<noteq> []" and "a \<noteq> b"
  shows "\<exists>g'. run [Join a, Join b, StartGame w a, StartGame w' b] (newGame (Some pg)) = Inr g'
           \<and> player1 g' = Some a \<and> player2 g' = Some b \<and> status g' = IN_PROGRESS
           \<and> firstPlayer g' = Player2"
  using assms
  by (simp add: newGame_def join_def bothJoined_def truthy_def startGame_def Let_def)

lemma new_pairing:
  assumes "x \<noteq> []" and "y \<noteq> []" and "x \<noteq> y"
    and "Some x \<noteq> preferredPlayer1 (newGame prior)" and "Some x \<noteq> preferredPlayer2 (newGame prior)"
    and "Some y \<noteq> preferredPlayer1 (newGame prior)" and "Some y \<noteq> preferredPlayer2 (newGame prior)"
  shows "\<exists>g'. run [Join x, Join y, StartGame w x, StartGame w' y] (newGame prior) = Inr g'
           \<and> player1 g' = Some x \<and> player2 g' = Some y \<and> status g' = IN_PROGRESS
           \<and> firstPlayer g' = Player1"
  using assms
  by (simp add: newGame_def join_def bothJoined_def truthy_def startGame_def Let_def)

subsection \<open>A player of the last game in the other slot\<close>

text \<open>
  Claim C3. The comment in \<open>startGame\<close> and the tests word the rule as the claim does,
  by presence: \<open>firstPlayer\<close> is forced to slot 1 when none of the players of the last
  game is in this game, and otherwise keeps its constructed value, the opposite of the
  last game's. The code compares slot by slot (\<open>startGame_firstPlayer\<close>). Below, a game
  between A (slot 1) and B, with slot 1 moving first, ends when B leaves. In the game
  constructed after it, which starts out with slot 2 moving first, a newcomer X joins
  first and takes slot 1, so A, the preferred player of slot 1, is seated in slot 2. A
  current occupant matches a preferred id, yet when X starts \<open>firstPlayer\<close> is forced to
  slot 1 and does not keep its constructed value.
\<close>

theorem C3_cross_slot_start:
  "firstPlayer priorGame = Player1
   \<and> firstPlayer (newGame (Some priorGame)) = Player2
   \<and> preferredPlayer1 (newGame (Some priorGame)) = Some ''A''
   \<and> run [Join ''X'', Join ''A''] (newGame (Some priorGame)) = Inr crossSlotGame
   \<and> status crossSlotGame = WAITING_TO_START
   \<and> player1 crossSlotGame = Some ''X'' \<and> player2 crossSlotGame = Some ''A''
   \<and> player2 crossSlotGame = preferredPlayer1 crossSlotGame
   \<and> \<not> spec_freshPairing crossSlotGame
   \<and> firstPlayer crossSlotGame = Player2
   \<and> startGame drawApple crossSlotGame ''X''
       = Inr (post (startGame drawApple crossSlotGame ''X''))
   \<and> firstPlayer (post (startGame drawApple crossSlotGame ''X'')) = Player1"
  by (simp add: crossSlotGame_eq priorGame_eq spec_freshPairing_def newGame_def join_def
      bothJoined_def truthy_def startGame_def selectedCordle_def toUpperCase_def post_def Let_def)

text \<open>
  The forcing is not undone either. In the game constructed after \<open>playingGame\<close>
  (A in slot 1, B in slot 2, slot 1 moving first), two newcomers join and one starts,
  which forces slot 1; both leave, A and B join in their old slots and start. Slot 1
  still moves first, where a rematch in the same slots was to give slot 2.
\<close>

lemma forced_first_player_stays:
  "firstPlayer playingGame = Player1
   \<and> firstPlayer (newGame (Some playingGame)) = Player2
   \<and> run reseatedCalls (newGame (Some playingGame)) = Inr reseatedGame
   \<and> player1 reseatedGame = Some ''A'' \<and> player2 reseatedGame = Some ''B''
   \<and> status reseatedGame = IN_PROGRESS
   \<and> firstPlayer reseatedGame = Player1"
  by (simp add: reseatedGame_def reseatedCalls_def playingGame_eq game_defs)

section \<open>Invariants of reachable instances\<close>

lemma reachableVia_invariant:
  assumes "reachableVia allowed g"
    and "\<And>priorGame. I (newGame priorGame)"
    and "\<And>g c. I g \<Longrightarrow> allowed g c \<Longrightarrow> I (post (exec c g))"
  shows "I g"
  using assms(1)
proof (induction rule: reachableVia.induct)
  case (fresh priorGame)
  show ?case by (rule assms(2))
next
  case (call g c)
  then show ?case by (simp add: assms(3))
qed

lemma reachableVia_run:
  "reachableVia allowed g \<Longrightarrow> runAllowed allowed cs g \<Longrightarrow>
   reachableVia allowed (post (run cs g))"
proof (induction cs arbitrary: g)
  case Nil
  then show ?case by (simp add: post_def)
next
  case (Cons c cs)
  from Cons.prems(2) obtain g' where g': "exec c g = Inr g'" and ok: "allowed g c"
    and rest: "runAllowed allowed cs g'"
    by (auto split: sum.splits)
  from Cons.prems(1) ok have "reachableVia allowed (post (exec c g))"
    by (rule reachableVia.call)
  with g' have "reachableVia allowed g'" by (simp add: post_def)
  from Cons.IH [OF this rest] g' show ?case by simp
qed

subsection \<open>What each call leaves behind\<close>

lemma join_post:
  "guesses (post (join g p)) = guesses g"
  "guessesEvaluated (post (join g p)) = guessesEvaluated g"
  "winner (post (join g p)) = winner g"
  by (simp_all add: join_def bothJoined_def post_def)

lemma join_post_in_progress:
  "status (post (join g p)) = IN_PROGRESS \<Longrightarrow> post (join g p) = g"
  by (auto simp: join_def bothJoined_def post_def split: if_splits)

lemma join_post_not_over:
  "status g \<noteq> OVER \<Longrightarrow> status (post (join g p)) \<noteq> OVER"
  by (simp add: join_def bothJoined_def post_def)

lemma leave_post:
  "guesses (post (leave g p)) = guesses g"
  "guessesEvaluated (post (leave g p)) = guessesEvaluated g"
  by (simp_all add: leave_def removePlayer_def post_def split: GameStatus.splits)

lemma leave_post_in_progress:
  assumes "status (post (leave g p)) = IN_PROGRESS"
  shows "post (leave g p) = g"
proof (cases "status g = OVER")
  case True
  then show ?thesis by (simp add: leave_over post_def)
next
  case False
  show ?thesis
  proof (cases "player1 g = Some p \<or> player2 g = Some p")
    case stranger: False
    with False show ?thesis by (simp add: leave_stranger post_def)
  next
    case occupant: True
    show ?thesis
    proof (cases "status g = IN_PROGRESS")
      case True
      from leave_occupant_in_progress [OF True occupant] assms show ?thesis
        by (auto simp: post_def)
    next
      case waiting: False
      with False have "status g = WAITING_FOR_PLAYERS \<or> status g = WAITING_TO_START"
        by (cases "status g") simp_all
      from leave_occupant_waiting [OF this occupant] assms show ?thesis
        by (auto simp: post_def)
    qed
  qed
qed

lemma leave_post_not_over:
  "status (post (leave g p)) \<noteq> OVER \<Longrightarrow>
   status g \<noteq> OVER \<and> winner (post (leave g p)) = winner g"
  by (simp add: leave_def removePlayer_def post_def split: if_splits GameStatus.splits)

lemma startGame_post:
  "guesses (post (startGame w g p)) = guesses g"
  "guessesEvaluated (post (startGame w g p)) = guessesEvaluated g"
  "winner (post (startGame w g p)) = winner g"
  "player1 (post (startGame w g p)) = player1 g"
  "player2 (post (startGame w g p)) = player2 g"
  by (simp_all add: startGame_def Let_def post_def)

lemma startGame_post_in_progress:
  "status (post (startGame w g p)) = IN_PROGRESS \<Longrightarrow>
   status g = IN_PROGRESS \<or> (truthy (player1 g) \<and> truthy (player2 g))"
  by (simp add: startGame_def Let_def post_def split: if_splits)

lemma startGame_post_not_over:
  "status (post (startGame w g p)) \<noteq> OVER \<Longrightarrow> status g \<noteq> OVER"
  by (auto simp: startGame_def Let_def post_def split: if_splits)

lemma applyGuess_fields:
  "guesses (applyGuess g guess) = guesses g @ [guess]"
  "player1 (applyGuess g guess) = player1 g"
  "player2 (applyGuess g guess) = player2 g"
  "firstPlayer (applyGuess g guess) = firstPlayer g"
  by (simp_all add: applyGuess_def Let_def)

lemma applyGuess_status:
  "status (applyGuess g guess) = OVER \<or> status (applyGuess g guess) = status g"
  by (simp add: applyGuess_def Let_def)

lemma applyGuess_not_over:
  assumes "status (applyGuess g guess) \<noteq> OVER" and "winner g = None"
  shows "winner (applyGuess g guess) = None \<and> length (guesses g) + 1 < 6"
  using assms by (simp add: applyGuess_def Let_def truthy_def split: if_splits)

text \<open>
  The outcome of a guess that is not the winning word, and of one that is, when it is
  made by a player with a non-empty id in a game that has no winner yet.
\<close>

lemma applyGuess_outcome:
  assumes "winner g = None" and "player guess \<noteq> []"
  shows "winner (applyGuess g guess) =
           (if list_all (\<lambda>color. color = Green)
                 (evaluateGuess (case cordle g of None \<Rightarrow> [] | Some w \<Rightarrow> w) (guessedWord guess))
            then Some (player guess)
            else if 6 \<le> length (guesses g) + 1 then Some DRAW else None)"
    and "status (applyGuess g guess) =
           (if list_all (\<lambda>color. color = Green)
                 (evaluateGuess (case cordle g of None \<Rightarrow> [] | Some w \<Rightarrow> w) (guessedWord guess))
               \<or> 6 \<le> length (guesses g) + 1
            then OVER else status g)"
  using assms by (simp_all add: applyGuess_def Let_def truthy_def)

lemma applyMove_post_players:
  "player1 (post (applyMove g guess)) = player1 g"
  "player2 (post (applyMove g guess)) = player2 g"
  by (simp_all add: applyMove_def Let_def post_def applyGuess_fields)

lemma applyMove_Inr:
  "applyMove g guess = Inr g' \<Longrightarrow>
   status g = IN_PROGRESS \<and> g' = applyGuess g guess
   \<and> Some (player guess) = (if whoseTurn g = Player2 then player2 g else player1 g)"
  by (auto simp: applyMove_def Let_def split: if_splits CordlePlayerNumber.splits)

lemma applyMove_post:
  "post (applyMove g guess) = g \<or>
   (status g = IN_PROGRESS \<and> post (applyMove g guess) = applyGuess g guess)"
  by (simp add: applyMove_def Let_def post_def)

subsection \<open>A game in progress has both slots occupied\<close>

lemma slotsFilled_step: "slotsFilled g \<Longrightarrow> slotsFilled (post (exec c g))"
proof (cases c)
  case (Join p)
  assume "slotsFilled g"
  then show ?thesis
    using join_post_in_progress [of g p] by (auto simp: Join slotsFilled_def)
next
  case (Leave p)
  assume "slotsFilled g"
  then show ?thesis
    using leave_post_in_progress [of g p] by (auto simp: Leave slotsFilled_def)
next
  case (StartGame w p)
  assume "slotsFilled g"
  then show ?thesis
    using startGame_post_in_progress [of w g p]
    by (auto simp: StartGame slotsFilled_def startGame_post)
next
  case (SetDifficultyLevel d)
  assume "slotsFilled g"
  then show ?thesis
    by (simp add: SetDifficultyLevel slotsFilled_def setDifficultyLevel_def post_def)
next
  case (ApplyMove guess)
  assume "slotsFilled g"
  then show ?thesis
    using applyMove_post [of g guess] applyGuess_status [of g guess]
    by (auto simp: ApplyMove slotsFilled_def applyGuess_fields)
qed

lemma reachable_slotsFilled: "reachableVia allowed g \<Longrightarrow> slotsFilled g"
proof (rule reachableVia_invariant [where I = slotsFilled])
  show "slotsFilled (newGame priorGame)" for priorGame
    by (simp add: slotsFilled_def newGame_def)
  show "slotsFilled (post (exec c g))" if "slotsFilled g" for g c
    using that by (rule slotsFilled_step)
qed

subsection \<open>The guess limit\<close>

lemma withinLimit_step:
  assumes "withinLimit g" and "noJoinWhenOver g c"
  shows "withinLimit (post (exec c g))"
proof (cases c)
  case (Join p)
  with assms show ?thesis
    by (simp add: withinLimit_def join_post)
next
  case (Leave p)
  with assms leave_post_not_over [of g p] show ?thesis
    by (auto simp: withinLimit_def leave_post)
next
  case (StartGame w p)
  with assms startGame_post_not_over [of w g p] show ?thesis
    by (auto simp: withinLimit_def startGame_post)
next
  case (SetDifficultyLevel d)
  with assms show ?thesis
    by (simp add: withinLimit_def setDifficultyLevel_def post_def)
next
  case (ApplyMove guess)
  from applyMove_post [of g guess] show ?thesis
  proof
    assume "post (applyMove g guess) = g"
    with assms ApplyMove show ?thesis by simp
  next
    assume a: "status g = IN_PROGRESS \<and> post (applyMove g guess) = applyGuess g guess"
    with assms have w: "winner g = None" and l: "length (guesses g) < 6"
      by (simp_all add: withinLimit_def)
    from applyGuess_not_over [of g guess, OF _ w] l
    have "withinLimit (applyGuess g guess)"
      by (auto simp: withinLimit_def applyGuess_fields)
    with a ApplyMove show ?thesis by simp
  qed
qed

lemma reachable_withinLimit: "reachableVia noJoinWhenOver g \<Longrightarrow> withinLimit g"
proof (rule reachableVia_invariant [where I = withinLimit and allowed = noJoinWhenOver])
  show "withinLimit (newGame priorGame)" for priorGame
    by (simp add: withinLimit_def newGame_def)
  show "withinLimit (post (exec c g))" if "withinLimit g" "noJoinWhenOver g c" for g c
    using that by (rule withinLimit_step)
qed

lemma applyMove_over: "status g = OVER \<Longrightarrow> applyMove g guess = Inl (GAME_NOT_IN_PROGRESS, g)"
  by (simp add: applyMove_def)

lemma mover_nonempty:
  assumes "slotsFilled g" and "status g = IN_PROGRESS"
    and "Some (player guess) = (if whoseTurn g = Player2 then player2 g else player1 g)"
  shows "player guess \<noteq> []"
proof -
  from assms(1,2) have "truthy (player1 g)" "truthy (player2 g)"
    by (simp_all add: slotsFilled_def)
  with assms(3) have "truthy (Some (player guess))"
    by (simp split: if_splits)
  then show ?thesis by (simp add: truthy_def)
qed

lemma sixth_guess:
  assumes r: "reachableVia noJoinWhenOver g"
    and five: "length (guesses g) = 5"
    and ok: "applyMove g guess = Inr g'"
  shows "length (guesses g') = 6 \<and> status g' = OVER
     \<and> winner g' =
         (if list_all (\<lambda>color. color = Green)
               (evaluateGuess (case cordle g of None \<Rightarrow> [] | Some w \<Rightarrow> w) (guessedWord guess))
          then Some (player guess) else Some DRAW)
     \<and> (\<forall>next. applyMove g' next = Inl (GAME_NOT_IN_PROGRESS, g'))"
proof -
  from applyMove_Inr [OF ok] have s: "status g = IN_PROGRESS" and g': "g' = applyGuess g guess"
    and m: "Some (player guess) = (if whoseTurn g = Player2 then player2 g else player1 g)"
    by simp_all
  from r have "slotsFilled g" by (rule reachable_slotsFilled)
  from mover_nonempty [OF this s m] have ne: "player guess \<noteq> []" .
  from reachable_withinLimit [OF r] s have w: "winner g = None"
    by (simp add: withinLimit_def)
  from applyGuess_outcome [OF w ne] five
  have win: "winner g' =
         (if list_all (\<lambda>color. color = Green)
               (evaluateGuess (case cordle g of None \<Rightarrow> [] | Some w \<Rightarrow> w) (guessedWord guess))
          then Some (player guess) else Some DRAW)"
    and over: "status g' = OVER"
    by (simp_all add: g')
  from five have "length (guesses g') = 6"
    by (simp add: g' applyGuess_fields)
  with win over show ?thesis
    by (simp add: applyMove_over)
qed

text \<open>
  Claim C6, amended. Take the instances reachable by calls among which \<open>join\<close> is never
  made on an instance whose status is \<open>OVER\<close>. Such an instance has at most six
  guesses. When it has five and a sixth guess is applied, the status becomes \<open>OVER\<close>,
  the winner is the guesser if the row is all green and the draw sentinel otherwise, and
  every further \<open>applyMove\<close> throws \<open>GAME_NOT_IN_PROGRESS\<close>; the same holds of any such
  instance with six guesses.
\<close>

theorem C6_guess_limit:
  assumes "reachableVia noJoinWhenOver g"
  shows "length (guesses g) \<le> 6
     \<and> (\<forall>guess g'. length (guesses g) = 5 \<and> applyMove g guess = Inr g' \<longrightarrow>
           length (guesses g') = 6 \<and> status g' = OVER
           \<and> winner g' =
               (if list_all (\<lambda>color. color = Green)
                     (evaluateGuess (case cordle g of None \<Rightarrow> [] | Some w \<Rightarrow> w)
                        (guessedWord guess))
                then Some (player guess) else Some DRAW)
           \<and> (\<forall>next. applyMove g' next = Inl (GAME_NOT_IN_PROGRESS, g')))
     \<and> (length (guesses g) = 6 \<longrightarrow>
           status g = OVER \<and> (\<forall>next. applyMove g next = Inl (GAME_NOT_IN_PROGRESS, g)))"
proof -
  from reachable_withinLimit [OF assms] have a: "length (guesses g) \<le> 6"
    by (simp add: withinLimit_def)
  have b: "\<forall>guess g'. length (guesses g) = 5 \<and> applyMove g guess = Inr g' \<longrightarrow>
           length (guesses g') = 6 \<and> status g' = OVER
           \<and> winner g' =
               (if list_all (\<lambda>color. color = Green)
                     (evaluateGuess (case cordle g of None \<Rightarrow> [] | Some w \<Rightarrow> w)
                        (guessedWord guess))
                then Some (player guess) else Some DRAW)
           \<and> (\<forall>next. applyMove g' next = Inl (GAME_NOT_IN_PROGRESS, g'))"
    using sixth_guess [OF assms] by blast
  have c: "length (guesses g) = 6 \<longrightarrow>
           status g = OVER \<and> (\<forall>next. applyMove g next = Inl (GAME_NOT_IN_PROGRESS, g))"
  proof
    assume "length (guesses g) = 6"
    with reachable_withinLimit [OF assms] have "status g = OVER"
      by (auto simp: withinLimit_def)
    then show "status g = OVER \<and> (\<forall>next. applyMove g next = Inl (GAME_NOT_IN_PROGRESS, g))"
      by (simp add: applyMove_over)
  qed
  from a b c show ?thesis by (intro conjI)
qed

lemma wrong_row: "evaluateGuess [] ''wrong'' = [Gray, Gray, Gray, Gray, Gray]"
  by code_simp

lemma fiveGuessGame_eq:
  "fiveGuessGame =
     \<lparr>guesses = [wrongGuess ''A'' 1, wrongGuess ''B'' 2, wrongGuess ''A'' 3, wrongGuess ''B'' 4,
                 wrongGuess ''A'' 5],
      status = IN_PROGRESS, firstPlayer = Player1, cordle = Some [],
      guessesEvaluated =
        [Some [Gray, Gray, Gray, Gray, Gray], Some [Gray, Gray, Gray, Gray, Gray],
         Some [Gray, Gray, Gray, Gray, Gray], Some [Gray, Gray, Gray, Gray, Gray],
         Some [Gray, Gray, Gray, Gray, Gray]],
      difficulty = None, player1 = Some ''A'', player2 = Some ''B'',
      player1Ready = True, player2Ready = True, winner = None, preferredPlayer1 = None,
      preferredPlayer2 = None\<rparr>"
  by (simp add: fiveGuessGame_def fiveGuessCalls_def game_defs wrong_row)

lemma fiveGuessGame_reachable: "reachableVia noJoinWhenOver fiveGuessGame"
proof -
  have "runAllowed noJoinWhenOver fiveGuessCalls (newGame None)"
    by (simp add: fiveGuessCalls_def game_defs wrong_row)
  from reachableVia_run [OF reachableVia.fresh this] show ?thesis
    by (simp add: fiveGuessGame_def)
qed

theorem C6_guess_limit_witness:
  "reachableVia noJoinWhenOver fiveGuessGame
   \<and> length (guesses fiveGuessGame) = 5
   \<and> status (post (applyMove fiveGuessGame (wrongGuess ''B'' 6))) = OVER
   \<and> winner (post (applyMove fiveGuessGame (wrongGuess ''B'' 6))) = Some DRAW
   \<and> applyMove (post (applyMove fiveGuessGame (wrongGuess ''B'' 6))) (wrongGuess ''A'' 7)
       = Inl (GAME_NOT_IN_PROGRESS, post (applyMove fiveGuessGame (wrongGuess ''B'' 6)))"
proof -
  let ?g' = "post (applyMove fiveGuessGame (wrongGuess ''B'' 6))"
  have five: "length (guesses fiveGuessGame) = 5"
    by (simp add: fiveGuessGame_eq)
  have ok: "applyMove fiveGuessGame (wrongGuess ''B'' 6) = Inr ?g'"
    by (simp add: fiveGuessGame_eq applyMove_def whoseTurn_def wrongGuess_def post_def Let_def)
  have row: "\<not> list_all (\<lambda>color. color = Green)
               (evaluateGuess (case cordle fiveGuessGame of None \<Rightarrow> [] | Some w \<Rightarrow> w)
                  (guessedWord (wrongGuess ''B'' 6)))"
    by (simp add: fiveGuessGame_eq wrongGuess_def wrong_row)
  from C6_guess_limit [OF fiveGuessGame_reachable] five ok
  have "status ?g' = OVER
      \<and> winner ?g' =
          (if list_all (\<lambda>color. color = Green)
                (evaluateGuess (case cordle fiveGuessGame of None \<Rightarrow> [] | Some w \<Rightarrow> w)
                   (guessedWord (wrongGuess ''B'' 6)))
           then Some (player (wrongGuess ''B'' 6)) else Some DRAW)
      \<and> (\<forall>next. applyMove ?g' next = Inl (GAME_NOT_IN_PROGRESS, ?g'))"
    by blast
  with row have "status ?g' = OVER" "winner ?g' = Some DRAW"
    "applyMove ?g' (wrongGuess ''A'' 7) = Inl (GAME_NOT_IN_PROGRESS, ?g')"
    by simp_all
  with fiveGuessGame_reachable five show ?thesis by (intro conjI)
qed

lemma sevenGuessGame_reachable: "reachableVia anyCall sevenGuessGame"
proof -
  have "runAllowed anyCall sevenGuessCalls (newGame None)"
    by (simp add: sevenGuessCalls_def game_defs anyCall_def wrong_row)
  from reachableVia_run [OF reachableVia.fresh this] show ?thesis
    by (simp add: sevenGuessGame_def)
qed

text \<open>
  Claim C6, as stated, fails. A game in progress is abandoned by the player of slot 1,
  which ends it with the other player as winner. A newcomer then joins the finished
  instance and starts it: \<open>_join\<close> resets the status, the other ready flag is still
  set, and the game is in progress again with a winner already recorded. Seven guesses
  are then accepted, and the game is still in progress.
\<close>

theorem C6_guess_limit_counterexample:
  "run sevenGuessCalls (newGame None) = Inr sevenGuessGame
   \<and> reachableVia anyCall sevenGuessGame
   \<and> length (guesses sevenGuessGame) = 7
   \<and> \<not> length (guesses sevenGuessGame) \<le> 6
   \<and> status sevenGuessGame = IN_PROGRESS"
proof -
  have "run sevenGuessCalls (newGame None) = Inr sevenGuessGame
        \<and> length (guesses sevenGuessGame) = 7 \<and> status sevenGuessGame = IN_PROGRESS"
    by (simp add: sevenGuessGame_def sevenGuessCalls_def game_defs wrong_row)
  with sevenGuessGame_reachable show ?thesis by simp
qed


subsection \<open>Rows and guesses\<close>

lemma storeRow_next:
  "length rows = n \<Longrightarrow> storeRow rows (Suc n) row = rows @ [Some row]"
  by (simp add: storeRow_def arrayStore_def)

lemma rowsInStep_step:
  assumes "rowsInStep g" and "guessNumberInSequence g c"
  shows "rowsInStep (post (exec c g))"
proof (cases c)
  case (Join p)
  with assms show ?thesis by (simp add: rowsInStep_def join_post)
next
  case (Leave p)
  with assms show ?thesis by (simp add: rowsInStep_def leave_post)
next
  case (StartGame w p)
  with assms show ?thesis by (simp add: rowsInStep_def startGame_post)
next
  case (SetDifficultyLevel d)
  with assms show ?thesis
    by (simp add: rowsInStep_def setDifficultyLevel_def post_def)
next
  case (ApplyMove guess)
  from applyMove_post [of g guess] show ?thesis
  proof
    assume "post (applyMove g guess) = g"
    with assms ApplyMove show ?thesis by simp
  next
    assume a: "status g = IN_PROGRESS \<and> post (applyMove g guess) = applyGuess g guess"
    from assms ApplyMove have n: "guessNumber guess = length (guesses g) + 1"
      and l: "length (guessesEvaluated g) = length (guesses g)"
      and h: "None \<notin> set (guessesEvaluated g)"
      by (simp_all add: rowsInStep_def)
    have "rowsInStep (applyGuess g guess)"
      using h by (simp add: rowsInStep_def applyGuess_guessesEvaluated applyGuess_fields n
          storeRow_next [OF l] l)
    with a ApplyMove show ?thesis by simp
  qed
qed

lemma reachable_rowsInStep: "reachableVia guessNumberInSequence g \<Longrightarrow> rowsInStep g"
proof (rule reachableVia_invariant [where I = rowsInStep and allowed = guessNumberInSequence])
  show "rowsInStep (newGame priorGame)" for priorGame
    by (simp add: rowsInStep_def newGame_def)
  show "rowsInStep (post (exec c g))" if "rowsInStep g" "guessNumberInSequence g c" for g c
    using that by (rule rowsInStep_step)
qed

lemma rowsInStep_defined:
  assumes "rowsInStep g"
  shows "rowDefined (guessesEvaluated g) i \<longleftrightarrow> i < length (guesses g)"
proof
  assume "rowDefined (guessesEvaluated g) i"
  with assms show "i < length (guesses g)"
    by (simp add: rowsInStep_def rowDefined_def)
next
  assume "i < length (guesses g)"
  with assms have i: "i < length (guessesEvaluated g)"
    by (simp add: rowsInStep_def)
  then have mem: "guessesEvaluated g ! i \<in> set (guessesEvaluated g)"
    by (rule nth_mem)
  have "guessesEvaluated g ! i \<noteq> None"
  proof
    assume "guessesEvaluated g ! i = None"
    with mem have "None \<in> set (guessesEvaluated g)" by simp
    with assms show False by (simp add: rowsInStep_def)
  qed
  with i show "rowDefined (guessesEvaluated g) i"
    by (simp add: rowDefined_def)
qed

text \<open>
  Claim C7, amended. Take the instances reachable by calls in which every guess passed
  to \<open>applyMove\<close> carries the number \<open>guesses.length + 1\<close>. In such an instance
  \<open>guessesEvaluated[i]\<close> is defined exactly when \<open>guesses[i]\<close> is. A guess with that
  number which is accepted is stored at index \<open>guessNumber - 1\<close> of the guesses, and its
  row at the same index of the rows.
\<close>

theorem C7_rows_match_guesses:
  assumes "reachableVia guessNumberInSequence g"
  shows "(\<forall>i. rowDefined (guessesEvaluated g) i \<longleftrightarrow> i < length (guesses g))
     \<and> (\<forall>guess g'. guessNumber guess = length (guesses g) + 1 \<and> applyMove g guess = Inr g' \<longrightarrow>
           guesses g' ! (guessNumber guess - 1) = guess
           \<and> guessesEvaluated g' ! (guessNumber guess - 1) =
               Some (evaluateGuess (case cordle g of None \<Rightarrow> [] | Some w \<Rightarrow> w)
                       (guessedWord guess)))"
proof -
  from assms have inv: "rowsInStep g" by (rule reachable_rowsInStep)
  then have a: "\<forall>i. rowDefined (guessesEvaluated g) i \<longleftrightarrow> i < length (guesses g)"
    by (simp add: rowsInStep_defined)
  have b: "guesses g' ! (guessNumber guess - 1) = guess
           \<and> guessesEvaluated g' ! (guessNumber guess - 1) =
               Some (evaluateGuess (case cordle g of None \<Rightarrow> [] | Some w \<Rightarrow> w)
                       (guessedWord guess))"
    if n: "guessNumber guess = length (guesses g) + 1" and ok: "applyMove g guess = Inr g'"
    for guess g'
  proof -
    from applyMove_Inr [OF ok] have g': "g' = applyGuess g guess" by simp
    from inv have l: "length (guessesEvaluated g) = length (guesses g)"
      by (simp add: rowsInStep_def)
    have gs: "guesses g' ! (guessNumber guess - 1) = guess"
      by (simp add: g' applyGuess_fields n)
    have "guessesEvaluated g' =
            guessesEvaluated g @
              [Some (evaluateGuess (case cordle g of None \<Rightarrow> [] | Some w \<Rightarrow> w)
                       (guessedWord guess))]"
      by (simp add: g' applyGuess_guessesEvaluated n storeRow_next [OF l])
    moreover have "guessNumber guess - 1 = length (guessesEvaluated g)"
      by (simp add: n l)
    ultimately have "guessesEvaluated g' ! (guessNumber guess - 1) =
               Some (evaluateGuess (case cordle g of None \<Rightarrow> [] | Some w \<Rightarrow> w)
                       (guessedWord guess))"
      by simp
    with gs show ?thesis by simp
  qed
  from a b show ?thesis by blast
qed

lemma playingGame_in_sequence: "reachableVia guessNumberInSequence playingGame"
proof -
  have "runAllowed guessNumberInSequence
          [Join ''A'', Join ''B'', StartGame drawApple ''A'', StartGame drawApple ''B'']
          (newGame None)"
    by (simp add: game_defs)
  from reachableVia_run [OF reachableVia.fresh this] show ?thesis
    by (simp add: playingGame_def)
qed

theorem C7_rows_match_guesses_witness:
  "reachableVia guessNumberInSequence playingGame
   \<and> \<not> rowDefined (guessesEvaluated playingGame) 0
   \<and> guessNumber (wrongGuess ''A'' 1) = length (guesses playingGame) + 1
   \<and> guesses (post (applyMove playingGame (wrongGuess ''A'' 1))) ! 0 = wrongGuess ''A'' 1
   \<and> guessesEvaluated (post (applyMove playingGame (wrongGuess ''A'' 1))) ! 0
       = Some [Gray, Gray, Gray, Gray, Gray]"
proof -
  let ?g' = "post (applyMove playingGame (wrongGuess ''A'' 1))"
  note t = C7_rows_match_guesses [OF playingGame_in_sequence]
  have n: "guessNumber (wrongGuess ''A'' 1) = length (guesses playingGame) + 1"
    by (simp add: playingGame_eq wrongGuess_def)
  have ok: "applyMove playingGame (wrongGuess ''A'' 1) = Inr ?g'"
    by (simp add: playingGame_eq applyMove_def whoseTurn_def wrongGuess_def post_def Let_def)
  from t have "rowDefined (guessesEvaluated playingGame) 0 \<longleftrightarrow> 0 < length (guesses playingGame)"
    by blast
  then have a: "\<not> rowDefined (guessesEvaluated playingGame) 0"
    by (simp add: playingGame_eq)
  from t n ok have "guesses ?g' ! (guessNumber (wrongGuess ''A'' 1) - 1) = wrongGuess ''A'' 1
      \<and> guessesEvaluated ?g' ! (guessNumber (wrongGuess ''A'' 1) - 1) =
          Some (evaluateGuess (case cordle playingGame of None \<Rightarrow> [] | Some w \<Rightarrow> w)
                  (guessedWord (wrongGuess ''A'' 1)))"
    by blast
  then have b: "guesses ?g' ! 0 = wrongGuess ''A'' 1"
    and c: "guessesEvaluated ?g' ! 0 = Some [Gray, Gray, Gray, Gray, Gray]"
    by (simp_all add: playingGame_eq wrongGuess_def wrong_row)
  from playingGame_in_sequence a n b c show ?thesis by (intro conjI)
qed

lemma misnumberedGame_reachable: "reachableVia anyCall misnumberedGame"
proof -
  have "runAllowed anyCall misnumberedCalls (newGame None)"
    by (simp add: misnumberedCalls_def game_defs anyCall_def wrong_row)
  from reachableVia_run [OF reachableVia.fresh this] show ?thesis
    by (simp add: misnumberedGame_def)
qed

text \<open>
  Claim C7, as stated, fails. The first guess of a game carries the number 2, which
  \<open>applyMove\<close> does not check. The guess is stored at index 0 and its row at index 1:
  \<open>guesses[0]\<close> is defined and \<open>guessesEvaluated[0]\<close> is a hole, while
  \<open>guessesEvaluated[1]\<close> is defined and \<open>guesses[1]\<close> is not.
\<close>

theorem C7_rows_match_guesses_counterexample:
  "run misnumberedCalls (newGame None) = Inr misnumberedGame
   \<and> reachableVia anyCall misnumberedGame
   \<and> guesses misnumberedGame = [wrongGuess ''A'' 2]
   \<and> guessesEvaluated misnumberedGame = [None, Some [Gray, Gray, Gray, Gray, Gray]]
   \<and> 0 < length (guesses misnumberedGame)
   \<and> \<not> rowDefined (guessesEvaluated misnumberedGame) 0
   \<and> rowDefined (guessesEvaluated misnumberedGame) 1
   \<and> \<not> 1 < length (guesses misnumberedGame)"
proof -
  have "run misnumberedCalls (newGame None) = Inr misnumberedGame
   \<and> guesses misnumberedGame = [wrongGuess ''A'' 2]
   \<and> guessesEvaluated misnumberedGame = [None, Some [Gray, Gray, Gray, Gray, Gray]]"
    by (simp add: misnumberedGame_def misnumberedCalls_def game_defs wrong_row)
  with misnumberedGame_reachable show ?thesis
    by (simp add: rowDefined_def)
qed

subsection \<open>The empty guess\<close>

lemma evaluateGuess_empty: "evaluateGuess secret [] = []"
  by (simp add: evaluateGuess_def greenLoop.simps yellowLoop.simps)

lemma empty_guess_wins:
  assumes r: "reachableVia anyCall g"
    and s: "status g = IN_PROGRESS"
    and e: "guessedWord guess = []"
    and m: "Some (player guess) = (if whoseTurn g = Player1 then player1 g else player2 g)"
  shows "applyMove g guess = Inr (applyGuess g guess)"
    and "status (applyGuess g guess) = OVER"
    and "winner (applyGuess g guess) = Some (player guess)"
proof -
  have m': "Some (player guess) = (if whoseTurn g = Player2 then player2 g else player1 g)"
    using m by (cases "whoseTurn g") simp_all
  show "applyMove g guess = Inr (applyGuess g guess)"
    using s m by (cases "whoseTurn g") (simp_all add: applyMove_def Let_def)
  from r have "slotsFilled g" by (rule reachable_slotsFilled)
  from mover_nonempty [OF this s m'] have ne: "player guess \<noteq> []" .
  show "status (applyGuess g guess) = OVER"
    by (simp add: applyGuess_def Let_def e evaluateGuess_empty)
  show "winner (applyGuess g guess) = Some (player guess)"
    using ne by (simp add: applyGuess_def Let_def e evaluateGuess_empty truthy_def)
qed

text \<open>
  Claim C10. In a reachable game in progress, a guess whose word is the empty string,
  made by the player whose turn it is, is accepted: it is appended to the guesses, its
  row is empty and stored (at index \<open>guessNumber - 1\<close>), the all-green test holds of the
  empty row, the status becomes \<open>OVER\<close> and the guesser is the winner. Whatever the
  word, \<open>applyMove\<close> accepts the guess of that player. The length check is made by the
  frontend only: \<open>makeMove\<close> never sends the empty word.
\<close>

theorem C10_empty_guess_accepted:
  assumes "reachableVia anyCall g"
    and "status g = IN_PROGRESS"
    and "guessedWord guess = []"
    and "Some (player guess) = (if whoseTurn g = Player1 then player1 g else player2 g)"
  shows "(\<exists>g'. applyMove g guess = Inr g'
            \<and> guesses g' = guesses g @ [guess]
            \<and> (0 < guessNumber guess \<longrightarrow> guessesEvaluated g' ! (guessNumber guess - 1) = Some [])
            \<and> status g' = OVER \<and> winner g' = Some (player guess))
     \<and> evaluateGuess secret [] = [] \<and> list_all (\<lambda>color. color = Green) (evaluateGuess secret [])
     \<and> (\<forall>w. \<exists>g''. applyMove g (guess\<lparr>guessedWord := w\<rparr>) = Inr g'')
     \<and> (makeMove instanceID gameStatus isRealWord playerID guessCount []
           = Inl NO_GAME_IN_PROGRESS_ERROR
         \<or> makeMove instanceID gameStatus isRealWord playerID guessCount []
           = Inl WORD_WRONG_LENGTH)"
proof -
  note w = empty_guess_wins [OF assms]
  have row: "0 < guessNumber guess \<longrightarrow>
             guessesEvaluated (applyGuess g guess) ! (guessNumber guess - 1) = Some []"
    using storeRow_nth [of "guessNumber guess"]
    by (simp add: applyGuess_guessesEvaluated assms(3) evaluateGuess_empty)
  have a: "\<exists>g'. applyMove g guess = Inr g'
            \<and> guesses g' = guesses g @ [guess]
            \<and> (0 < guessNumber guess \<longrightarrow> guessesEvaluated g' ! (guessNumber guess - 1) = Some [])
            \<and> status g' = OVER \<and> winner g' = Some (player guess)"
    using w row by (simp add: applyGuess_fields)
  have b: "\<forall>w. \<exists>g''. applyMove g (guess\<lparr>guessedWord := w\<rparr>) = Inr g''"
    using assms(2,4) by (cases "whoseTurn g") (simp_all add: applyMove_def Let_def)
  have c: "makeMove instanceID gameStatus isRealWord playerID guessCount []
           = Inl NO_GAME_IN_PROGRESS_ERROR
         \<or> makeMove instanceID gameStatus isRealWord playerID guessCount []
           = Inl WORD_WRONG_LENGTH"
    by (simp add: makeMove_def)
  from a b c show ?thesis by (simp add: evaluateGuess_empty)
qed

theorem C10_empty_guess_accepted_witness:
  "reachableVia anyCall playingGame \<and> status playingGame = IN_PROGRESS
   \<and> whoseTurn playingGame = Player1 \<and> player1 playingGame = Some ''A''
   \<and> guessedWord (emptyGuess ''A'' 1) = []
   \<and> status (post (applyMove playingGame (emptyGuess ''A'' 1))) = OVER
   \<and> winner (post (applyMove playingGame (emptyGuess ''A'' 1))) = Some ''A''
   \<and> guessesEvaluated (post (applyMove playingGame (emptyGuess ''A'' 1))) = [Some []]"
proof -
  have "runAllowed anyCall
          [Join ''A'', Join ''B'', StartGame drawApple ''A'', StartGame drawApple ''B'']
          (newGame None)"
    by (simp add: game_defs anyCall_def)
  from reachableVia_run [OF reachableVia.fresh this]
  have r: "reachableVia anyCall playingGame"
    by (simp add: playingGame_def)
  have s: "status playingGame = IN_PROGRESS" and t: "whoseTurn playingGame = Player1"
    and p: "player1 playingGame = Some ''A''" and e: "guessedWord (emptyGuess ''A'' 1) = []"
    by (simp_all add: playingGame_eq whoseTurn_def emptyGuess_def)
  have m: "Some (player (emptyGuess ''A'' 1))
           = (if whoseTurn playingGame = Player1 then player1 playingGame else player2 playingGame)"
    by (simp add: t p emptyGuess_def)
  from C10_empty_guess_accepted [OF r s e m]
  obtain g' where g': "applyMove playingGame (emptyGuess ''A'' 1) = Inr g'"
    "status g' = OVER" "winner g' = Some (player (emptyGuess ''A'' 1))"
    by blast
  then have a: "status (post (applyMove playingGame (emptyGuess ''A'' 1))) = OVER"
    and b: "winner (post (applyMove playingGame (emptyGuess ''A'' 1))) = Some ''A''"
    by (simp_all add: post_def emptyGuess_def)
  have c: "guessesEvaluated (post (applyMove playingGame (emptyGuess ''A'' 1))) = [Some []]"
    by (simp add: playingGame_eq emptyGuess_def game_defs evaluateGuess_empty)
  from r s t p e a b c show ?thesis by (intro conjI)
qed


end
